theory Spec2Isabelle
  imports Complex_Main "HOL-Library.AList"
begin

section \<open>JavaScript values shared by the chat controller and the persistence adapter\<close>

text \<open>
  Chart and table payloads are typed \<^verbatim>\<open>any\<close> in the source. The code looks at them in two
  ways only: their truthiness (\<^verbatim>\<open>message.chartData ? ... : null\<close>) and whether they are
  strings (\<^verbatim>\<open>typeof message.chartData === 'string'\<close>). They are modelled as JSON values;
  a finite JavaScript number is a rational. Strings are byte lists, so a literal of the
  source that is not ASCII is written as its UTF-8 bytes.
\<close>

datatype json =
    JNull
  | JBool bool
  | JNum rat
  | JStr string
  | JArr "json list"
  | JObj "(string \<times> json) list"

text \<open>JavaScript truthiness: \<^verbatim>\<open>null\<close>, \<^verbatim>\<open>false\<close>, \<^verbatim>\<open>0\<close> and \<^verbatim>\<open>''\<close> are falsy, every array and object is truthy.\<close>

fun truthy :: "json \<Rightarrow> bool" where
  "truthy JNull = False"
| "truthy (JBool b) = b"
| "truthy (JNum n) = (n \<noteq> 0)"
| "truthy (JStr s) = (s \<noteq> [])"
| "truthy (JArr xs) = True"
| "truthy (JObj kvs) = True"

text \<open>A property that may be missing (\<^verbatim>\<open>undefined\<close>), \<^verbatim>\<open>null\<close>, or an object.\<close>

datatype 'a nullable = Undefined | Null | Defined 'a

text \<open>What a \<^verbatim>\<open>catch (error)\<close> receives. \<^verbatim>\<open>JsError msg\<close> is an instance of \<^verbatim>\<open>Error\<close> with
  that message (every \<^verbatim>\<open>throw new Error(...)\<close> of the source, and the errors of the store and
  of \<^verbatim>\<open>fetch\<close>); \<^verbatim>\<open>ReferenceError\<close> is the runtime's error for a name that is not in scope
  (also an \<^verbatim>\<open>Error\<close>); \<^verbatim>\<open>NonError\<close> is any thrown value that is not an \<^verbatim>\<open>Error\<close>.\<close>

datatype js_error = JsError string | ReferenceError string | NonError

fun error_message :: "js_error \<Rightarrow> string option" where
  "error_message (JsError msg) = Some msg"
| "error_message (ReferenceError msg) = Some msg"
| "error_message NonError = None"

text \<open>What the code writes with \<^verbatim>\<open>console.error\<close> and \<^verbatim>\<open>console.warn\<close> (the informational
  \<^verbatim>\<open>console.log\<close> lines are left out). Only the fixed text of the first argument is kept,
  without its leading pictograph and without an interpolated message index.\<close>

datatype log_line = console_error string | console_warn string

subsection \<open>Strings\<close>

definition newline :: char where
  "newline = CHR 0x0A"

text \<open>\<^verbatim>\<open>s.split('\n')\<close>: never empty, \<^verbatim>\<open>''.split('\n')\<close> is \<^verbatim>\<open>['']\<close>.\<close>

fun split_newline :: "string \<Rightarrow> string list" where
  "split_newline [] = [Nil]"
| "split_newline (c # cs) =
     (if c = newline then [] # split_newline cs
      else (case split_newline cs of
              [] \<Rightarrow> [c # Nil]
            | l # ls \<Rightarrow> (c # l) # ls))"

text \<open>The white space that \<^verbatim>\<open>String.prototype.trim\<close> removes (the white space and the line
  terminators of the language), each code point as its UTF-8 bytes: U+0009 to U+000D,
  U+0020, U+00A0, U+1680, U+2000 to U+200A, U+2028, U+2029, U+202F, U+205F, U+3000 and
  U+FEFF.\<close>

definition white_space :: "string list" where
  "white_space =
     [CHR 0x09] # [CHR 0x0A] # [CHR 0x0B] # [CHR 0x0C] # [CHR 0x0D] # [CHR 0x20] #
     [CHR 0xC2, CHR 0xA0] # [CHR 0xE1, CHR 0x9A, CHR 0x80] #
     [CHR 0xE2, CHR 0x80, CHR 0x80] # [CHR 0xE2, CHR 0x80, CHR 0x81] #
     [CHR 0xE2, CHR 0x80, CHR 0x82] # [CHR 0xE2, CHR 0x80, CHR 0x83] #
     [CHR 0xE2, CHR 0x80, CHR 0x84] # [CHR 0xE2, CHR 0x80, CHR 0x85] #
     [CHR 0xE2, CHR 0x80, CHR 0x86] # [CHR 0xE2, CHR 0x80, CHR 0x87] #
     [CHR 0xE2, CHR 0x80, CHR 0x88] # [CHR 0xE2, CHR 0x80, CHR 0x89] #
     [CHR 0xE2, CHR 0x80, CHR 0x8A] # [CHR 0xE2, CHR 0x80, CHR 0xA8] #
     [CHR 0xE2, CHR 0x80, CHR 0xA9] # [CHR 0xE2, CHR 0x80, CHR 0xAF] #
     [CHR 0xE2, CHR 0x81, CHR 0x9F] # [CHR 0xE3, CHR 0x80, CHR 0x80] #
     [CHR 0xEF, CHR 0xBB, CHR 0xBF] # Nil"

text \<open>Removing, from the start of a string, every leading occurrence of one of the given
  byte sequences.\<close>

function strip_start :: "string list \<Rightarrow> string \<Rightarrow> string" where
  "strip_start ws s =
     (case find (\<lambda>w. w \<noteq> [] \<and> take (length w) s = w) ws of
        None \<Rightarrow> s
      | Some w \<Rightarrow> strip_start ws (drop (length w) s))"
  by pat_completeness auto
termination
proof (relation "measure (\<lambda>p. length (snd p))")
  show "wf (measure (\<lambda>p. length (snd p)))" by simp
next
  fix ws :: "string list" and s w :: string
  assume "find (\<lambda>w. w \<noteq> [] \<and> take (length w) s = w) ws = Some w"
  then have w: "w \<noteq> []" "take (length w) s = w"
    by (auto simp: find_Some_iff)
  from w(2) have "length (take (length w) s) = length w" by simp
  then have "length w \<le> length s"
    by (simp add: min_def split: if_splits)
  with w(1) show "((ws, drop (length w) s), (ws, s)) \<in> measure (\<lambda>p. length (snd p))"
    by (cases w) auto
qed

definition trim :: "string \<Rightarrow> string" where
  "trim s = rev (strip_start (map rev white_space) (rev (strip_start white_space s)))"

section \<open>The chat controller (ChatInterface.tsx)\<close>

subsection \<open>Messages and chunks\<close>

datatype message_type = user | assistant

record codeExecution_t =
  codeChunks :: "string list"
  isExecuting :: bool
  result :: "string option"
  exec_output :: "string option"

datatype file_type = csv | excel | pdf

record fileInfo_t =
  filename :: string
  fileSize :: nat
  fileType :: file_type
  file_id :: string

record tableData_t =
  data :: json
  columns :: "string list"
  table_filename :: string

text \<open>\<^verbatim>\<open>interface Message\<close>. The field \<^verbatim>\<open>id\<close> is \<open>mid\<close> and \<^verbatim>\<open>type\<close> is \<open>mtype\<close> here; an optional
  field is an option and \<open>None\<close> is \<^verbatim>\<open>undefined\<close>. A \<^verbatim>\<open>Date\<close> is its time in milliseconds.\<close>

record Message =
  mid :: string
  mtype :: message_type
  content :: string
  timestamp :: nat
  isStreaming :: "bool option"
  chartData :: "json option"
  insights :: "string list option"
  followUpQuestions :: "string list option"
  fileInfo :: "fileInfo_t option"
  tableData :: "tableData_t option"
  codeExecution :: "codeExecution_t option"

text \<open>A chunk of the analysis stream, after \<^verbatim>\<open>JSON.parse\<close>: the tag is \<^verbatim>\<open>chunk.type\<close>, and each
  variant carries the properties its \<^verbatim>\<open>case\<close> reads (\<^verbatim>\<open>content\<close>, \<^verbatim>\<open>code\<close>, \<^verbatim>\<open>chartData\<close>,
  \<^verbatim>\<open>followUpQuestions\<close>, \<^verbatim>\<open>codeExecution\<close>). \<open>other_chunk\<close> is a chunk with any other tag,
  which reaches \<^verbatim>\<open>default\<close>; its content may be missing.\<close>

datatype chunk =
    analysis_start string
  | step_update string
  | code_complete_display string
  | code_stream string
  | code_execution_result string
  | chart_generated "json option"
  | insights_generated
  | analysis_complete "json option" "string list option" "codeExecution_t option"
  | text_stream string
  | error_chunk string
  | other_chunk string "string option"

text \<open>The UTF-8 bytes of the placeholder the assistant message starts with
  (\<^verbatim>\<open>content: '...'\<close> at its creation in \<^verbatim>\<open>handleSendMessage\<close>, Korean for "processing...").\<close>

definition processing_placeholder :: string where
  "processing_placeholder =
     [CHR 0xEC, CHR 0xB2, CHR 0x98, CHR 0xEB, CHR 0xA6, CHR 0xAC, CHR 0x20,
      CHR 0xEC, CHR 0xA4, CHR 0x91, CHR 0x2E, CHR 0x2E, CHR 0x2E]"

definition initialAssistantMessage :: "string \<Rightarrow> nat \<Rightarrow> Message" where
  "initialAssistantMessage assistantMessageId now =
     \<lparr>mid = assistantMessageId, mtype = assistant, content = processing_placeholder,
      timestamp = now, isStreaming = Some True, chartData = None, insights = None,
      followUpQuestions = None, fileInfo = None, tableData = None, codeExecution = None\<rparr>"

subsection \<open>The streaming response assembler\<close>

text \<open>
  The body of the \<^verbatim>\<open>switch (chunk.type)\<close> in \<^verbatim>\<open>onChunk\<close>, for the message whose id is
  \<^verbatim>\<open>assistantMessageId\<close>. It works on the copy \<^verbatim>\<open>updatedMessage = { ...msg }\<close> and on the
  variable \<^verbatim>\<open>textBuffer\<close> of the enclosing scope, which \<^verbatim>\<open>analysis_complete\<close> may empty: the
  model takes the message and the buffer and returns both.
\<close>

fun switch_chunk :: "chunk \<Rightarrow> Message \<Rightarrow> string \<Rightarrow> Message \<times> string" where
  "switch_chunk (analysis_start c) m buf = (m\<lparr>content := c\<rparr>, buf)"
| "switch_chunk (step_update c) m buf = (m\<lparr>content := c\<rparr>, buf)"
| "switch_chunk (code_complete_display code) m buf =
     (m\<lparr>codeExecution :=
          Some \<lparr>codeChunks = filter (\<lambda>line. trim line \<noteq> []) (split_newline code),
                isExecuting = True, result = Some [], exec_output = Some []\<rparr>,
        content := []\<rparr>, buf)"
| "switch_chunk (code_stream c) m buf = (m, buf)"
| "switch_chunk (code_execution_result c) m buf =
     ((case codeExecution m of
         None \<Rightarrow> m
       | Some ce \<Rightarrow>
           m\<lparr>codeExecution := Some (ce\<lparr>isExecuting := False, result := Some c, exec_output := Some c\<rparr>)\<rparr>),
      buf)"
| "switch_chunk (chart_generated cd) m buf = (m\<lparr>chartData := cd\<rparr>, buf)"
| "switch_chunk insights_generated m buf = (m, buf)"
| "switch_chunk (analysis_complete cd fq ce) m buf =
     (let flush = (codeExecution m = None \<and> buf \<noteq> []);
          m1 = (if flush then m\<lparr>content := content m @ buf\<rparr> else m);
          m2 = m1\<lparr>chartData := cd,
                  followUpQuestions := Some (case fq of None \<Rightarrow> [] | Some qs \<Rightarrow> qs)\<rparr>;
          m3 = (case ce of None \<Rightarrow> m2 | Some c \<Rightarrow> m2\<lparr>codeExecution := Some c\<rparr>)
      in (m3\<lparr>isStreaming := Some False\<rparr>, if flush then [] else buf))"
| "switch_chunk (text_stream c) m buf =
     (let canAddText = (case codeExecution m of None \<Rightarrow> True | Some ce \<Rightarrow> \<not> isExecuting ce)
      in (if canAddText \<and> c \<noteq> [] then m\<lparr>content := content m @ c\<rparr> else m, buf))"
| "switch_chunk (error_chunk c) m buf =
     (let m1 = m\<lparr>content := c\<rparr>;
          m2 = (case codeExecution m1 of
                  None \<Rightarrow> m1
                | Some ce \<Rightarrow> m1\<lparr>codeExecution := Some (ce\<lparr>isExecuting := False\<rparr>)\<rparr>)
      in (m2\<lparr>isStreaming := Some False\<rparr>, buf))"
| "switch_chunk (other_chunk ty c) m buf =
     ((case c of
         None \<Rightarrow> m
       | Some s \<Rightarrow> if s \<noteq> [] then m\<lparr>content := s\<rparr> else m),
      buf)"

text \<open>
  \<^verbatim>\<open>prevMessages.map(msg => ...)\<close> in \<^verbatim>\<open>onChunk\<close>: every message with the assistant's id goes
  through the switch, in list order, and each time the closure variables \<^verbatim>\<open>textBuffer\<close> and
  \<^verbatim>\<open>finalAssistantMessage\<close> are assigned; every other message is returned as it is.
\<close>

fun map_messages ::
  "string \<Rightarrow> chunk \<Rightarrow> Message list \<Rightarrow> string \<Rightarrow> Message \<Rightarrow> Message list \<times> string \<times> Message"
where
  "map_messages assistantMessageId ch [] buf fin = ([], buf, fin)"
| "map_messages assistantMessageId ch (msg # rest) buf fin =
     (if mid msg = assistantMessageId then
        (case switch_chunk ch msg buf of
           (updatedMessage, buf') \<Rightarrow>
             (case map_messages assistantMessageId ch rest buf' updatedMessage of
                (rest', buf'', fin') \<Rightarrow> (updatedMessage # rest', buf'', fin')))
      else
        (case map_messages assistantMessageId ch rest buf fin of
           (rest', buf'', fin') \<Rightarrow> (msg # rest', buf'', fin')))"

text \<open>
  \<^verbatim>\<open>setMessages(f)\<close> does not run \<open>f\<close>: React queues the updater and runs the queued updaters,
  in the order of the calls, when it next renders the component. An updater of this
  request is one of three closures: the one \<^verbatim>\<open>onChunk\<close> makes for a chunk, which runs the
  switch; the one of \<^verbatim>\<open>onComplete\<close>, which appends \<^verbatim>\<open>textBuffer\<close> to the content; the one of
  \<^verbatim>\<open>onError\<close>. Each holds \<^verbatim>\<open>assistantMessageId\<close>, and reads and writes the variables \<^verbatim>\<open>textBuffer\<close>
  and \<^verbatim>\<open>finalAssistantMessage\<close> of the enclosing scope as they are when it runs.
\<close>

datatype updater =
    chunk_updater string chunk
  | flush_updater string
  | error_updater string js_error

text \<open>
  What the handlers of one streaming request share: the message list (the React state
  \<^verbatim>\<open>messages\<close>), the updaters that React has queued and not run yet, and the variables
  \<^verbatim>\<open>textBuffer\<close>, \<^verbatim>\<open>lastTextUpdate\<close> and \<^verbatim>\<open>finalAssistantMessage\<close> of the closures.
\<close>

record stream_state =
  messages :: "Message list"
  pending :: "updater list"
  textBuffer :: string
  lastTextUpdate :: nat
  finalAssistantMessage :: Message

definition setMessages :: "updater \<Rightarrow> stream_state \<Rightarrow> stream_state" where
  "setMessages f st = st\<lparr>pending := pending st @ [f]\<rparr>"

text \<open>The text before the error's message in \<^verbatim>\<open>onError\<close>, Korean for "an error occurred during
  the analysis: ".\<close>

definition analysis_error_prefix :: string where
  "analysis_error_prefix =
     [CHR 0xEB, CHR 0xB6, CHR 0x84, CHR 0xEC, CHR 0x84, CHR 0x9D, CHR 0x20,
      CHR 0xEC, CHR 0xA4, CHR 0x91, CHR 0x20, CHR 0xEC, CHR 0x98, CHR 0xA4,
      CHR 0xEB, CHR 0xA5, CHR 0x98, CHR 0xEA, CHR 0xB0, CHR 0x80, CHR 0x20,
      CHR 0xEB, CHR 0xB0, CHR 0x9C, CHR 0xEC, CHR 0x83, CHR 0x9D, CHR 0xED,
      CHR 0x96, CHR 0x88, CHR 0xEC, CHR 0x8A, CHR 0xB5, CHR 0xEB, CHR 0x8B,
      CHR 0x88, CHR 0xEB, CHR 0x8B, CHR 0xA4, CHR 0x3A, CHR 0x20]"

text \<open>Running one updater on the message list and the two variables. A thrown value
  without a message prints as \<^verbatim>\<open>undefined\<close> in the text of \<^verbatim>\<open>onError\<close>.\<close>

fun run_updater ::
  "updater \<Rightarrow> Message list \<times> string \<times> Message \<Rightarrow> Message list \<times> string \<times> Message"
where
  "run_updater (chunk_updater assistantMessageId ch) (ms, buf, fin) =
     map_messages assistantMessageId ch ms buf fin"
| "run_updater (flush_updater assistantMessageId) (ms, buf, fin) =
     (map (\<lambda>msg. if mid msg = assistantMessageId
                then msg\<lparr>content := content msg @ buf\<rparr> else msg) ms,
      buf, fin)"
| "run_updater (error_updater assistantMessageId error) (ms, buf, fin) =
     (map (\<lambda>msg. if mid msg = assistantMessageId
                then msg\<lparr>content := analysis_error_prefix @
                           (case error_message error of Some text \<Rightarrow> text | None \<Rightarrow> ''undefined''),
                       codeExecution :=
                         map_option (\<lambda>ce. ce\<lparr>isExecuting := False\<rparr>) (codeExecution msg)\<rparr>
                else msg) ms,
      buf, fin)"

text \<open>A render: React runs the queued updaters in their order and empties the queue.\<close>

definition render :: "stream_state \<Rightarrow> stream_state" where
  "render st =
     (case foldl (\<lambda>acc f. run_updater f acc)
             (messages st, textBuffer st, finalAssistantMessage st) (pending st) of
        (ms, buf, fin) \<Rightarrow>
          st\<lparr>messages := ms, pending := [], textBuffer := buf, finalAssistantMessage := fin\<rparr>)"

definition TEXT_UPDATE_THROTTLE :: int where
  "TEXT_UPDATE_THROTTLE = 0"

text \<open>
  \<^verbatim>\<open>onChunk\<close>. A \<^verbatim>\<open>text_stream\<close> chunk is first added to \<^verbatim>\<open>textBuffer\<close>; then, when less than
  \<^verbatim>\<open>TEXT_UPDATE_THROTTLE\<close> milliseconds have passed since the last text update, the handler
  returns without calling \<^verbatim>\<open>setMessages\<close>. \<open>now\<close> is what \<^verbatim>\<open>Date.now()\<close> returns in this call (it
  is read for \<^verbatim>\<open>text_stream\<close> chunks only).
\<close>

fun onChunk :: "string \<Rightarrow> chunk \<Rightarrow> nat \<Rightarrow> stream_state \<Rightarrow> stream_state" where
  "onChunk assistantMessageId (text_stream c) now st =
     (let st1 = st\<lparr>textBuffer := textBuffer st @ c\<rparr>
      in if int now - int (lastTextUpdate st1) < TEXT_UPDATE_THROTTLE then st1
         else setMessages (chunk_updater assistantMessageId (text_stream c))
                (st1\<lparr>lastTextUpdate := now\<rparr>))"
| "onChunk assistantMessageId ch now st = setMessages (chunk_updater assistantMessageId ch) st"

text \<open>
  \<^verbatim>\<open>onComplete\<close>, which the stream reader calls at the end of the stream: when \<^verbatim>\<open>textBuffer\<close> is
  not empty it gives React the flush updater and then empties \<^verbatim>\<open>textBuffer\<close>. The updater is
  only queued by then, and reads the variable when React runs it. (The write of
  \<^verbatim>\<open>finalAssistantMessage\<close> to the store that follows changes none of the five.)
\<close>

definition onComplete :: "string \<Rightarrow> stream_state \<Rightarrow> stream_state" where
  "onComplete assistantMessageId st =
     (if textBuffer st \<noteq> [] then
        (setMessages (flush_updater assistantMessageId) st)\<lparr>textBuffer := []\<rparr>
      else st)"

text \<open>\<^verbatim>\<open>onError\<close>, which the stream reader calls when the request or a read fails.\<close>

definition onError :: "string \<Rightarrow> js_error \<Rightarrow> stream_state \<Rightarrow> stream_state" where
  "onError assistantMessageId error st = setMessages (error_updater assistantMessageId error) st"

text \<open>
  What happens while the stream is read: a chunk arrives and the stream reader of
  \<^verbatim>\<open>askUnifiedQuestionStream\<close> hands it to \<^verbatim>\<open>onChunk\<close> (with the clock reading of its handling),
  or React renders. Chunks are handled in the order of their arrival; when React renders
  between them is not in the hands of the code, so a run of the request is any list of
  such events.
\<close>

datatype event = arrives chunk nat | renders

fun handle_event :: "string \<Rightarrow> stream_state \<Rightarrow> event \<Rightarrow> stream_state" where
  "handle_event assistantMessageId st (arrives ch now) = onChunk assistantMessageId ch now st"
| "handle_event assistantMessageId st renders = render st"

definition process_events :: "string \<Rightarrow> event list \<Rightarrow> stream_state \<Rightarrow> stream_state" where
  "process_events assistantMessageId evs st = foldl (handle_event assistantMessageId) st evs"

text \<open>The whole stream: the events, then \<^verbatim>\<open>onComplete\<close> when the body is read to its end, then
  the render that runs what is still queued. Its messages are the final ones.\<close>

definition stream_to_end :: "string \<Rightarrow> event list \<Rightarrow> stream_state \<Rightarrow> stream_state" where
  "stream_to_end assistantMessageId evs st =
     render (onComplete assistantMessageId (process_events assistantMessageId evs st))"

text \<open>The state in which \<^verbatim>\<open>handleSendMessage\<close> opens the stream: the placeholder message has
  been appended to the list (which ends with the user's message), nothing is queued, the
  buffer is empty and no text update has happened.\<close>

definition stream_start :: "Message list \<Rightarrow> string \<Rightarrow> nat \<Rightarrow> stream_state" where
  "stream_start prev assistantMessageId now =
     \<lparr>messages = prev @ [initialAssistantMessage assistantMessageId now],
      pending = [], textBuffer = [], lastTextUpdate = 0,
      finalAssistantMessage = initialAssistantMessage assistantMessageId now\<rparr>"

text \<open>The assistant's message in the list (the first one with its id).\<close>

definition assistant_message :: "string \<Rightarrow> stream_state \<Rightarrow> Message option" where
  "assistant_message assistantMessageId st =
     find (\<lambda>msg. mid msg = assistantMessageId) (messages st)"

subsection \<open>Notions for stating what a stream does\<close>

text \<open>The chunks of a run with their clock readings, in the order of arrival, and the clock
  readings of its \<^verbatim>\<open>text_stream\<close> chunks.\<close>

fun chunks_of :: "event list \<Rightarrow> (chunk \<times> nat) list" where
  "chunks_of [] = []"
| "chunks_of (arrives ch now # evs) = (ch, now) # chunks_of evs"
| "chunks_of (renders # evs) = chunks_of evs"

fun text_times :: "(chunk \<times> nat) list \<Rightarrow> nat list" where
  "text_times [] = []"
| "text_times ((text_stream c, now) # cs) = now # text_times cs"
| "text_times (other # cs) = text_times cs"

text \<open>The text a chunk adds to \<^verbatim>\<open>textBuffer\<close>, and the text of a list of chunks.\<close>

fun chunk_text :: "chunk \<Rightarrow> string" where
  "chunk_text (text_stream c) = c"
| "chunk_text ch = []"

definition stream_text :: "(chunk \<times> nat) list \<Rightarrow> string" where
  "stream_text cs = concat (map (\<lambda>c. chunk_text (fst c)) cs)"

text \<open>A list of \<^verbatim>\<open>text_stream\<close> chunks, from their contents and clock readings.\<close>

definition text_chunks :: "(string \<times> nat) list \<Rightarrow> (chunk \<times> nat) list" where
  "text_chunks cts = map (\<lambda>ct. (text_stream (fst ct), snd ct)) cts"

text \<open>The message that a list of chunks builds from a message when the switch is run on it
  for each chunk in turn, with an empty buffer.\<close>

definition apply_chunks :: "chunk list \<Rightarrow> Message \<Rightarrow> Message" where
  "apply_chunks chs m = foldl (\<lambda>msg ch. fst (switch_chunk ch msg [])) m chs"

text \<open>The switch reads the buffer in one place only, the flush of \<^verbatim>\<open>analysis_complete\<close> on a
  message without a code block. \<open>no_flush chs m\<close> says that no chunk of the list comes to
  that place when the chunks are applied to \<open>m\<close> in turn.\<close>

fun is_analysis_complete :: "chunk \<Rightarrow> bool" where
  "is_analysis_complete (analysis_complete cd fq ce) = True"
| "is_analysis_complete ch = False"

fun no_flush :: "chunk list \<Rightarrow> Message \<Rightarrow> bool" where
  "no_flush [] m = True"
| "no_flush (ch # chs) m =
     ((\<not> is_analysis_complete ch \<or> codeExecution m \<noteq> None)
      \<and> no_flush chs (fst (switch_chunk ch m [])))"

text \<open>An updater that writes the content of a message and nothing else: the one of a
  \<^verbatim>\<open>text_stream\<close> chunk, and the flush.\<close>

fun writes_content_only :: "updater \<Rightarrow> bool" where
  "writes_content_only (chunk_updater a (text_stream c)) = True"
| "writes_content_only (flush_updater a) = True"
| "writes_content_only f = False"

text \<open>The id of a message with its chart, table and code payloads.\<close>

definition payloads ::
  "Message \<Rightarrow> string \<times> json option \<times> tableData_t option \<times> codeExecution_t option"
where
  "payloads m = (mid m, chartData m, tableData m, codeExecution m)"

text \<open>
  \<open>target_becomes a pre post st v\<close>: the assistant's message is the one message of the list
  with the id \<open>a\<close>, between \<open>pre\<close> and \<open>post\<close>; what is queued are updaters of chunks, none of
  which comes to the flush; and \<open>v\<close> is the message that they make of it.
\<close>

definition target_becomes ::
  "string \<Rightarrow> Message list \<Rightarrow> Message list \<Rightarrow> stream_state \<Rightarrow> Message \<Rightarrow> bool"
where
  "target_becomes a pre post st v \<longleftrightarrow>
     a \<notin> mid ` set pre \<and> a \<notin> mid ` set post \<and>
     (\<exists>m qs. messages st = pre @ m # post \<and> mid m = a \<and>
             pending st = map (chunk_updater a) qs \<and> no_flush qs m \<and> apply_chunks qs m = v)"

section \<open>The persistence adapter (firestoreService)\<close>

subsection \<open>Records of the store\<close>

text \<open>
  \<^verbatim>\<open>interface ChatMessage\<close>, with the prefix \<open>cm_\<close> on its fields. \<^verbatim>\<open>id\<close> is optional in the
  source; \<^verbatim>\<open>Omit<ChatMessage, 'id'>\<close> is a value whose \<open>cm_id\<close> is \<open>None\<close>. The chart payload is
  \<^verbatim>\<open>any\<close>: \<open>None\<close> is a missing property and \<open>Some JNull\<close> is \<^verbatim>\<open>null\<close>. \<open>cm_codeExecution\<close> is
  not in the interface, but the chat controller passes it and the spread copies it.
\<close>

record ChatMessage =
  cm_id :: "string option"
  cm_sessionId :: string
  cm_userId :: string
  cm_type :: message_type
  cm_content :: string
  cm_timestamp :: nat
  cm_chartData :: "json option"
  cm_insights :: "string list option"
  cm_followUpQuestions :: "string list option"
  cm_fileInfo :: "fileInfo_t option"
  cm_tableData :: "tableData_t nullable"
  cm_codeExecution :: "codeExecution_t option"

text \<open>A document of the collection \<^verbatim>\<open>chat\<close>. The store has no schema, and the code tolerates
  missing fields (\<^verbatim>\<open>chatData.messages || []\<close>, \<^verbatim>\<open>!session.status\<close>), so every field is optional.
  A store timestamp is a natural number.\<close>

record chat_doc =
  d_userId :: "string option"
  d_title :: "string option"
  d_status :: "string option"
  d_messages :: "ChatMessage list option"
  d_createdAt :: "nat option"
  d_updatedAt :: "nat option"
  d_fileId :: "string option"
  d_fileName :: "string option"
  d_fileUrl :: "string option"
  d_projectId :: "string option"

definition empty_doc :: chat_doc where
  "empty_doc = \<lparr>d_userId = None, d_title = None, d_status = None, d_messages = None,
      d_createdAt = None, d_updatedAt = None, d_fileId = None, d_fileName = None,
      d_fileUrl = None, d_projectId = None\<rparr>"

text \<open>\<^verbatim>\<open>interface ChatSession\<close> as \<^verbatim>\<open>getChatSessions\<close> builds it:
  \<^verbatim>\<open>{ id: doc.id, ...doc.data() }\<close>, the document's fields and its id.\<close>

record ChatSession = chat_doc +
  s_id :: string

subsection \<open>The document store\<close>

text \<open>
  The store is outside the repository. Its collection \<^verbatim>\<open>chat\<close> is modelled as a list of
  documents with their ids, and its operations by what the SDK documents: \<^verbatim>\<open>getDoc\<close> finds
  the document of an id, \<^verbatim>\<open>setDoc\<close> with \<^verbatim>\<open>merge\<close> writes the given fields into the document
  (creating it when it is missing), \<^verbatim>\<open>addDoc\<close> adds a document under an id the store
  generates, and the query \<^verbatim>\<open>where('userId', '==', u), orderBy('updatedAt', 'desc')\<close> returns
  the documents of that user that have the field \<^verbatim>\<open>updatedAt\<close>, latest first. The module
  variable \<^verbatim>\<open>db\<close> is an option: \<open>None\<close> is the falsy handle that the guards \<^verbatim>\<open>if (!db)\<close> test
  for (the module that exports it assigns it once, from \<^verbatim>\<open>getFirestore(app)\<close>, which returns a
  store, so that the handle of every call is \<open>Some col\<close>; the functions of the adapter test it
  all the same). Every awaited call of the store may fail: a function of the adapter takes,
  for each call it awaits, what that call does (an error it rejects with, or nothing).
\<close>

type_synonym firestore = "(string \<times> chat_doc) list"

definition getDoc :: "firestore \<Rightarrow> string \<Rightarrow> chat_doc option" where
  "getDoc col docId = map_of col docId"

definition setDoc_merge :: "firestore \<Rightarrow> string \<Rightarrow> (chat_doc \<Rightarrow> chat_doc) \<Rightarrow> firestore" where
  "setDoc_merge col docId merge_fields =
     AList.update docId (merge_fields (case map_of col docId of None \<Rightarrow> empty_doc | Some d \<Rightarrow> d)) col"

definition addDoc :: "firestore \<Rightarrow> string \<Rightarrow> chat_doc \<Rightarrow> firestore" where
  "addDoc col newId d = col @ [(newId, d)]"

definition updated_key :: "string \<times> chat_doc \<Rightarrow> nat" where
  "updated_key e = (case d_updatedAt (snd e) of None \<Rightarrow> 0 | Some t \<Rightarrow> t)"

definition query_by_user_updated_desc :: "firestore \<Rightarrow> string \<Rightarrow> (string \<times> chat_doc) list" where
  "query_by_user_updated_desc col userId =
     rev (sort_key updated_key
            (filter (\<lambda>e. d_userId (snd e) = Some userId \<and> d_updatedAt (snd e) \<noteq> None) col))"

text \<open>The error with which \<^verbatim>\<open>collection(db, 'chat')\<close> rejects a handle that is not a store.\<close>

definition invalid_handle :: js_error where
  "invalid_handle = JsError ''Expected first argument to collection() to be a CollectionReference, a DocumentReference or FirebaseFirestore''"

subsection \<open>Numbers as strings\<close>

text \<open>\<^verbatim>\<open>Date.now().toString()\<close>: the decimal digits of a natural number.\<close>

definition digit_char :: "nat \<Rightarrow> char" where
  "digit_char d = ''0123456789'' ! d"

fun toString :: "nat \<Rightarrow> string" where
  "toString n = (if n < 10 then [digit_char n] else toString (n div 10) @ [digit_char (n mod 10)])"

subsection \<open>Sessions\<close>

text \<open>
  \<^verbatim>\<open>createChatSession(userId, title = 'New Chat')\<close>. \<open>added\<close> is what \<^verbatim>\<open>addDoc\<close> does: it rejects
  with an error, or it returns the id it has generated. \<open>serverNow\<close> is the value the store
  puts for \<^verbatim>\<open>serverTimestamp()\<close>. The result is what the caller receives (\<open>Inl\<close> an error
  thrown, \<open>Inr\<close> the string returned), the store and the console lines.
\<close>

definition createChatSession ::
  "firestore option \<Rightarrow> js_error + string \<Rightarrow> nat \<Rightarrow> string \<Rightarrow> string option
     \<Rightarrow> (js_error + string) \<times> firestore option \<times> log_line list"
where
  "createChatSession db added serverNow userId title =
     (case db of
        None \<Rightarrow> (Inr [], db, [console_error ''Firestore not initialized''])
      | Some col \<Rightarrow>
          (case added of
             Inl error \<Rightarrow> (Inl error, db, [console_error ''Failed to create chat session:''])
           | Inr newId \<Rightarrow>
               (Inr newId,
                Some (addDoc col newId
                  (empty_doc\<lparr>d_userId := Some userId,
                     d_title := Some (case title of None \<Rightarrow> ''New Chat'' | Some t \<Rightarrow> t),
                     d_status := Some ''active'',
                     d_messages := Some [],
                     d_createdAt := Some serverNow,
                     d_updatedAt := Some serverNow\<rparr>)),
                [])))"

text \<open>\<^verbatim>\<open>getChatSessions(userId)\<close>. It has no guard on \<^verbatim>\<open>db\<close> and no \<^verbatim>\<open>try\<close>: \<open>failed\<close> is the
  error with which \<^verbatim>\<open>getDocs\<close> rejects, if it does. The filter keeps a session whose status
  is missing, empty or \<^verbatim>\<open>'active'\<close>.\<close>

definition getChatSessions ::
  "firestore option \<Rightarrow> js_error option \<Rightarrow> string \<Rightarrow> js_error + ChatSession list"
where
  "getChatSessions db failed userId =
     (case db of
        None \<Rightarrow> Inl invalid_handle
      | Some col \<Rightarrow>
          (case failed of
             Some error \<Rightarrow> Inl error
           | None \<Rightarrow>
               Inr (filter (\<lambda>session. d_status session = None \<or> d_status session = Some []
                                      \<or> d_status session = Some ''active'')
                     (map (\<lambda>e. chat_doc.extend (snd e) (ChatSession.fields (fst e)))
                        (query_by_user_updated_desc col userId)))))"

text \<open>\<^verbatim>\<open>deleteChatSession(sessionId)\<close>: the soft delete. \<open>failed\<close> is the error of \<^verbatim>\<open>setDoc\<close>, if any.\<close>

definition deleteChatSession ::
  "firestore option \<Rightarrow> js_error option \<Rightarrow> nat \<Rightarrow> string
     \<Rightarrow> (js_error + unit) \<times> firestore option \<times> log_line list"
where
  "deleteChatSession db failed serverNow sessionId =
     (case db of
        None \<Rightarrow>
          (Inl (JsError ''Firestore not available''), db,
           [console_error ''Firestore not initialized'', console_error ''Failed to delete chat session:''])
      | Some col \<Rightarrow>
          (case failed of
             Some error \<Rightarrow> (Inl error, db, [console_error ''Failed to delete chat session:''])
           | None \<Rightarrow>
               (Inr (),
                Some (setDoc_merge col sessionId
                        (\<lambda>d. d\<lparr>d_status := Some ''deleted'', d_updatedAt := Some serverNow\<rparr>)),
                [])))"

text \<open>\<^verbatim>\<open>loadChatHistory\<close> of the chat controller, the caller of \<^verbatim>\<open>getChatSessions\<close>: the value it
  gives to \<^verbatim>\<open>setChatHistory\<close>, and the console lines.\<close>

definition loadChatHistory ::
  "firestore option \<Rightarrow> js_error option \<Rightarrow> string \<Rightarrow> ChatSession list \<times> log_line list"
where
  "loadChatHistory db failed uid =
     (case getChatSessions db failed uid of
        Inr sessions \<Rightarrow> (sessions, [])
      | Inl error \<Rightarrow> ([], [console_warn ''Failed to load chat history (continuing without it):'']))"

subsection \<open>Messages\<close>

text \<open>
  \<^verbatim>\<open>JSON.stringify\<close> and \<^verbatim>\<open>JSON.parse\<close> belong to the language, not to the repository: the
  functions below take them as arguments. \<open>JSON_parse s = None\<close> is a \<^verbatim>\<open>SyntaxError\<close>.

  \<open>sanitizedMessage\<close> is the object of that name in \<^verbatim>\<open>addMessage\<close>: the chart payload becomes
  its JSON text when it is truthy and \<^verbatim>\<open>null\<close> otherwise, and the rows of the table payload
  become their JSON text.
\<close>

definition sanitizedMessage :: "(json \<Rightarrow> string) \<Rightarrow> ChatMessage \<Rightarrow> ChatMessage" where
  "sanitizedMessage JSON_stringify message =
     message\<lparr>cm_chartData :=
         Some (case cm_chartData message of
                 None \<Rightarrow> JNull
               | Some chart \<Rightarrow> if truthy chart then JStr (JSON_stringify chart) else JNull),
       cm_tableData :=
         (case cm_tableData message of
            Defined table \<Rightarrow> Defined (table\<lparr>data := JStr (JSON_stringify (data table))\<rparr>)
          | _ \<Rightarrow> Null)\<rparr>"

text \<open>\<^verbatim>\<open>{ id: messageId, ...sanitizedMessage, timestamp: new Date() }\<close>: an \<^verbatim>\<open>id\<close> of the spread
  object, if it has one, replaces \<^verbatim>\<open>messageId\<close>.\<close>

definition newMessage :: "string \<Rightarrow> nat \<Rightarrow> ChatMessage \<Rightarrow> ChatMessage" where
  "newMessage messageId date sanitized =
     sanitized\<lparr>cm_id := Some (case cm_id sanitized of None \<Rightarrow> messageId | Some i \<Rightarrow> i),
       cm_timestamp := date\<rparr>"

text \<open>The clock readings of one call of \<^verbatim>\<open>addMessage\<close>: \<^verbatim>\<open>Date.now()\<close>, \<^verbatim>\<open>new Date()\<close> and the
  store's \<^verbatim>\<open>serverTimestamp()\<close>.\<close>

record clock =
  Date_now :: nat
  new_Date :: nat
  serverTimestamp :: nat

text \<open>
  \<^verbatim>\<open>addMessage(message)\<close>. \<open>get_failed\<close> and \<open>set_failed\<close> are the errors of \<^verbatim>\<open>getDoc\<close> and of
  \<^verbatim>\<open>setDoc\<close>, if they reject.

  When the session document is missing, the source builds the new document from
  \<^verbatim>\<open>...sanitizedMessage\<close>. That \<^verbatim>\<open>const\<close> is declared inside the block of the other branch
  (\<^verbatim>\<open>if (chatSnap.exists()) { ... const sanitizedMessage = ... }\<close>) and is not in scope in the
  \<^verbatim>\<open>else\<close> block, nor is there a declaration of that name further out: evaluating the
  argument of \<^verbatim>\<open>setDoc\<close> throws a \<^verbatim>\<open>ReferenceError\<close> before \<^verbatim>\<open>setDoc\<close> is called, and the
  \<^verbatim>\<open>catch\<close> of \<^verbatim>\<open>addMessage\<close> logs it and throws it again.
\<close>

definition addMessage ::
  "firestore option \<Rightarrow> js_error option \<Rightarrow> js_error option \<Rightarrow> clock \<Rightarrow> (json \<Rightarrow> string)
     \<Rightarrow> ChatMessage \<Rightarrow> (js_error + string) \<times> firestore option \<times> log_line list"
where
  "addMessage db get_failed set_failed clk JSON_stringify message =
     (case db of
        None \<Rightarrow> (Inr [], db, [console_error ''Firestore not initialized''])
      | Some col \<Rightarrow>
          (let messageId = toString (Date_now clk) in
           case get_failed of
             Some error \<Rightarrow> (Inl error, db, [console_error ''Failed to add message:''])
           | None \<Rightarrow>
               (case getDoc col (cm_sessionId message) of
                  Some chatData \<Rightarrow>
                    (let msgs = (case d_messages chatData of None \<Rightarrow> [] | Some ms \<Rightarrow> ms);
                         pushed = msgs @
                           [newMessage messageId (new_Date clk)
                              (sanitizedMessage JSON_stringify message)]
                     in case set_failed of
                          Some error \<Rightarrow> (Inl error, db, [console_error ''Failed to add message:''])
                        | None \<Rightarrow>
                            (Inr messageId,
                             Some (setDoc_merge col (cm_sessionId message)
                                     (\<lambda>d. d\<lparr>d_messages := Some pushed,
                                            d_updatedAt := Some (serverTimestamp clk)\<rparr>)),
                             []))
                | None \<Rightarrow>
                    (Inl (ReferenceError ''sanitizedMessage is not defined''), db,
                     [console_warn ''Chat session not found, creating new session:'',
                      console_error ''Failed to add message:'']))))"

text \<open>The body of \<^verbatim>\<open>messages.map((message, index) => ...)\<close> in \<^verbatim>\<open>getMessages\<close>: the message
  with its payloads parsed back, and the warnings of the two inner \<^verbatim>\<open>catch\<close> blocks.\<close>

definition parse_chartData :: "(string \<Rightarrow> json option) \<Rightarrow> json option \<Rightarrow> json \<times> log_line list" where
  "parse_chartData JSON_parse stored =
     (case stored of
        None \<Rightarrow> (JNull, [])
      | Some chart \<Rightarrow>
          if truthy chart then
            (case chart of
               JStr text \<Rightarrow>
                 (case JSON_parse text of
                    Some parsed \<Rightarrow> (parsed, [])
                  | None \<Rightarrow> (JNull, [console_warn ''Failed to parse chartData for message'']))
             | _ \<Rightarrow> (chart, []))
          else (JNull, []))"

definition parse_tableData ::
  "(string \<Rightarrow> json option) \<Rightarrow> tableData_t nullable \<Rightarrow> tableData_t nullable \<times> log_line list"
where
  "parse_tableData JSON_parse stored =
     (case stored of
        Defined table \<Rightarrow>
          if truthy (data table) then
            (case data table of
               JStr text \<Rightarrow>
                 (case JSON_parse text of
                    Some parsed \<Rightarrow> (Defined (table\<lparr>data := parsed\<rparr>), [])
                  | None \<Rightarrow> (stored, [console_warn ''Failed to parse tableData for message'']))
             | _ \<Rightarrow> (stored, []))
          else (stored, [])
      | _ \<Rightarrow> (stored, []))"

definition processedMessage :: "(string \<Rightarrow> json option) \<Rightarrow> ChatMessage \<Rightarrow> ChatMessage \<times> log_line list" where
  "processedMessage JSON_parse message =
     (case parse_chartData JSON_parse (cm_chartData message) of
        (chart, warn1) \<Rightarrow>
          (case parse_tableData JSON_parse (cm_tableData message) of
             (table, warn2) \<Rightarrow>
               (message\<lparr>cm_chartData := Some chart, cm_tableData := table\<rparr>, warn1 @ warn2)))"

text \<open>\<^verbatim>\<open>getMessages(sessionId)\<close>. It guards \<^verbatim>\<open>db\<close> but has no \<^verbatim>\<open>try\<close> around \<^verbatim>\<open>getDoc\<close>: \<open>failed\<close> is
  the error with which \<^verbatim>\<open>getDoc\<close> rejects, if it does.\<close>

definition getMessages ::
  "firestore option \<Rightarrow> js_error option \<Rightarrow> (string \<Rightarrow> json option) \<Rightarrow> string
     \<Rightarrow> (js_error + ChatMessage list) \<times> log_line list"
where
  "getMessages db failed JSON_parse sessionId =
     (case db of
        None \<Rightarrow> (Inr [], [console_error ''Firestore not initialized in getMessages''])
      | Some col \<Rightarrow>
          (case failed of
             Some error \<Rightarrow> (Inl error, [])
           | None \<Rightarrow>
               (case getDoc col sessionId of
                  Some chatData \<Rightarrow>
                    (let msgs = (case d_messages chatData of None \<Rightarrow> [] | Some ms \<Rightarrow> ms);
                         processed = map (processedMessage JSON_parse) msgs
                     in (Inr (map fst processed), concat (map snd processed)))
                | None \<Rightarrow>
                    (Inr [], [console_warn ''Chat document does not exist for session:'']))))"

text \<open>\<^verbatim>\<open>subscribeToMessages(sessionId, callback)\<close>: the list the callback receives, and the
  console lines.\<close>

definition subscribeToMessages ::
  "firestore option \<Rightarrow> js_error option \<Rightarrow> (string \<Rightarrow> json option) \<Rightarrow> string
     \<Rightarrow> ChatMessage list \<times> log_line list"
where
  "subscribeToMessages db failed JSON_parse sessionId =
     (case getMessages db failed JSON_parse sessionId of
        (Inr msgs, logged) \<Rightarrow> (msgs, logged)
      | (Inl error, logged) \<Rightarrow> ([], logged @ [console_warn ''Failed to load messages:'']))"

section \<open>The file upload orchestrator (handleFileUpload in ChatInterface.tsx)\<close>

text \<open>\<^verbatim>\<open>FileMetadata\<close> as \<^verbatim>\<open>firestoreService.uploadFile\<close> returns it and \<^verbatim>\<open>FileUploadResponse\<close> as the
  backend returns it, with the prefixes \<open>fm_\<close> and \<open>r_\<close>; the object given to
  \<^verbatim>\<open>setUploadedFile\<close>, with the prefix \<open>uf_\<close>.\<close>

record FileMetadata =
  fm_id :: "string option"
  fm_fileName :: string
  fm_fileSize :: nat
  fm_fileType :: string
  fm_fileUrl :: string
  fm_processed :: bool

record FileUploadResponse =
  r_file_id :: string
  r_filename :: string
  r_file_size :: nat
  r_columns :: "string list"
  r_row_count :: nat
  r_preview :: json
  r_uploaded_at :: string

record uploaded_file =
  uf_file_id :: string
  uf_name :: string
  uf_size :: nat
  uf_columns :: "string list"
  uf_rows :: nat
  uf_preview :: json
  uf_firebaseFileId :: "string option"

text \<open>The React state the handler reads and writes: the message list (\<^verbatim>\<open>messages\<close>, here
  \<open>ui_messages\<close>), the active file (\<^verbatim>\<open>uploadedFile\<close>), the current session id and the signed-in
  user's id (\<^verbatim>\<open>user.uid\<close>, \<open>None\<close> when there is no user).\<close>

record chat_state =
  ui_messages :: "Message list"
  uploadedFile :: "uploaded_file option"
  currentSessionId :: "string option"
  ui_user :: "string option"

text \<open>
  What the calls awaited by one run of \<^verbatim>\<open>handleFileUpload\<close> do, in the order of the source:
  \<^verbatim>\<open>createChatSession\<close>, \<^verbatim>\<open>firestoreService.uploadFile\<close> (step 1, object storage),
  \<^verbatim>\<open>apiService.uploadFile\<close> (step 2, backend), \<^verbatim>\<open>updateFileMetadata\<close>, \<^verbatim>\<open>addMessage\<close> and
  \<^verbatim>\<open>updateChatSession\<close>; then the clock readings (\<^verbatim>\<open>Date.now()\<close> for the temporary session id and
  for the id of the message, \<^verbatim>\<open>new Date()\<close> for the three messages), and \<^verbatim>\<open>Number.prototype.toLocaleString\<close>,
  which depends on the locale of the browser. The handler's effect on the React state
  depends on the file only through these results. (The \<^verbatim>\<open>addMessage\<close> of the \<^verbatim>\<open>catch\<close> block
  has its own \<^verbatim>\<open>try\<close>; its failure changes nothing of the state.)
\<close>

record upload_calls =
  createChatSession_result :: "js_error + string"
  uploadFile_storage :: "js_error + FileMetadata"
  uploadFile_backend :: "js_error + FileUploadResponse"
  updateFileMetadata_failed :: "js_error option"
  addMessage_failed :: "js_error option"
  updateChatSession_failed :: "js_error option"
  now_session :: nat
  now_message :: nat
  date_start :: nat
  date_uploaded :: nat
  date_error :: nat
  toLocaleString :: "nat \<Rightarrow> string"

text \<open>The literals of the handler, as UTF-8 bytes. In the order of the definitions: "uploading
  and analysing the file...", "an error occurred during the file upload: ", "unknown
  error", and the three parts of the success text ("the file was uploaded! (", " rows, ",
  " columns)" with the invitation to ask questions).\<close>

definition uploading_text :: string where
  "uploading_text =
     [CHR 0xED, CHR 0x8C, CHR 0x8C, CHR 0xEC, CHR 0x9D, CHR 0xBC, CHR 0xEC,
      CHR 0x9D, CHR 0x84, CHR 0x20, CHR 0xEC, CHR 0x97, CHR 0x85, CHR 0xEB,
      CHR 0xA1, CHR 0x9C, CHR 0xEB, CHR 0x93, CHR 0x9C, CHR 0xED, CHR 0x95,
      CHR 0x98, CHR 0xEA, CHR 0xB3, CHR 0xA0, CHR 0x20, CHR 0xEB, CHR 0xB6,
      CHR 0x84, CHR 0xEC, CHR 0x84, CHR 0x9D, CHR 0xED, CHR 0x95, CHR 0x98,
      CHR 0xEB, CHR 0x8A, CHR 0x94, CHR 0x20, CHR 0xEC, CHR 0xA4, CHR 0x91,
      CHR 0xEC, CHR 0x9E, CHR 0x85, CHR 0xEB, CHR 0x8B, CHR 0x88, CHR 0xEB,
      CHR 0x8B, CHR 0xA4, CHR 0x2E, CHR 0x2E, CHR 0x2E]"

definition upload_error_prefix :: string where
  "upload_error_prefix =
     [CHR 0xED, CHR 0x8C, CHR 0x8C, CHR 0xEC, CHR 0x9D, CHR 0xBC, CHR 0x20,
      CHR 0xEC, CHR 0x97, CHR 0x85, CHR 0xEB, CHR 0xA1, CHR 0x9C, CHR 0xEB,
      CHR 0x93, CHR 0x9C, CHR 0x20, CHR 0xEC, CHR 0xA4, CHR 0x91, CHR 0x20,
      CHR 0xEC, CHR 0x98, CHR 0xA4, CHR 0xEB, CHR 0xA5, CHR 0x98, CHR 0xEA,
      CHR 0xB0, CHR 0x80, CHR 0x20, CHR 0xEB, CHR 0xB0, CHR 0x9C, CHR 0xEC,
      CHR 0x83, CHR 0x9D, CHR 0xED, CHR 0x96, CHR 0x88, CHR 0xEC, CHR 0x8A,
      CHR 0xB5, CHR 0xEB, CHR 0x8B, CHR 0x88, CHR 0xEB, CHR 0x8B, CHR 0xA4,
      CHR 0x3A, CHR 0x20]"

definition unknown_error_text :: string where
  "unknown_error_text =
     [CHR 0xEC, CHR 0x95, CHR 0x8C, CHR 0x20, CHR 0xEC, CHR 0x88, CHR 0x98,
      CHR 0x20, CHR 0xEC, CHR 0x97, CHR 0x86, CHR 0xEB, CHR 0x8A, CHR 0x94,
      CHR 0x20, CHR 0xEC, CHR 0x98, CHR 0xA4, CHR 0xEB, CHR 0xA5, CHR 0x98]"

definition success_text_1 :: string where
  "success_text_1 =
     [CHR 0xED, CHR 0x8C, CHR 0x8C, CHR 0xEC, CHR 0x9D, CHR 0xBC, CHR 0xEC,
      CHR 0x9D, CHR 0xB4, CHR 0x20, CHR 0xEC, CHR 0x84, CHR 0xB1, CHR 0xEA,
      CHR 0xB3, CHR 0xB5, CHR 0xEC, CHR 0xA0, CHR 0x81, CHR 0xEC, CHR 0x9C,
      CHR 0xBC, CHR 0xEB, CHR 0xA1, CHR 0x9C, CHR 0x20, CHR 0xEC, CHR 0x97,
      CHR 0x85, CHR 0xEB, CHR 0xA1, CHR 0x9C, CHR 0xEB, CHR 0x93, CHR 0x9C,
      CHR 0xEB, CHR 0x90, CHR 0x98, CHR 0xEC, CHR 0x97, CHR 0x88, CHR 0xEC,
      CHR 0x8A, CHR 0xB5, CHR 0xEB, CHR 0x8B, CHR 0x88, CHR 0xEB, CHR 0x8B,
      CHR 0xA4, CHR 0x21, CHR 0x20, CHR 0x28]"

definition success_text_2 :: string where
  "success_text_2 =
     [CHR 0xED, CHR 0x96, CHR 0x89, CHR 0x2C, CHR 0x20]"

definition success_text_3 :: string where
  "success_text_3 =
     [CHR 0xEC, CHR 0xBB, CHR 0xAC, CHR 0xEB, CHR 0x9F, CHR 0xBC, CHR 0x29,
      CHR 0x0A, CHR 0x0A, CHR 0xEC, CHR 0x9D, CHR 0xB4, CHR 0xEC, CHR 0xA0,
      CHR 0x9C, CHR 0x20, CHR 0xEB, CHR 0x8D, CHR 0xB0, CHR 0xEC, CHR 0x9D,
      CHR 0xB4, CHR 0xED, CHR 0x84, CHR 0xB0, CHR 0xEC, CHR 0x97, CHR 0x90,
      CHR 0x20, CHR 0xEB, CHR 0x8C, CHR 0x80, CHR 0xED, CHR 0x95, CHR 0xB4,
      CHR 0x20, CHR 0xEC, CHR 0xA7, CHR 0x88, CHR 0xEB, CHR 0xAC, CHR 0xB8,
      CHR 0xED, CHR 0x95, CHR 0xB4, CHR 0xEB, CHR 0xB3, CHR 0xB4, CHR 0xEC,
      CHR 0x84, CHR 0xB8, CHR 0xEC, CHR 0x9A, CHR 0x94, CHR 0x2E]"

definition startsWith :: "string \<Rightarrow> string \<Rightarrow> bool" where
  "startsWith s p \<longleftrightarrow> take (length p) s = p"

definition endsWith :: "string \<Rightarrow> string \<Rightarrow> bool" where
  "endsWith s p \<longleftrightarrow> length p \<le> length s \<and> drop (length s - length p) s = p"

text \<open>\<^verbatim>\<open>toLowerCase\<close> on the ASCII letters.\<close>

definition toLowerCase :: "string \<Rightarrow> string" where
  "toLowerCase s =
     map (\<lambda>c. if (65::nat) \<le> of_char c \<and> (of_char c :: nat) \<le> 90
              then char_of ((of_char c :: nat) + 32) else c) s"

text \<open>\<^verbatim>\<open>sessionId && !sessionId.startsWith('temp_')\<close>, the test before each write of a message
  or of the session.\<close>

definition persistent_session :: "string \<Rightarrow> bool" where
  "persistent_session sessionId \<longleftrightarrow> sessionId \<noteq> [] \<and> \<not> startsWith sessionId ''temp_''"

definition plain_message :: "string \<Rightarrow> string \<Rightarrow> nat \<Rightarrow> Message" where
  "plain_message i text date =
     \<lparr>mid = i, mtype = assistant, content = text, timestamp = date, isStreaming = None,
      chartData = None, insights = None, followUpQuestions = None, fileInfo = None,
      tableData = None, codeExecution = None\<rparr>"

definition uploadStartMessage :: "upload_calls \<Rightarrow> Message" where
  "uploadStartMessage calls =
     plain_message (toString (now_message calls)) uploading_text (date_start calls)"

definition uploadMessage :: "upload_calls \<Rightarrow> FileUploadResponse \<Rightarrow> Message" where
  "uploadMessage calls uploadResponse =
     (plain_message (mid (uploadStartMessage calls))
        (success_text_1 @ toLocaleString calls (r_row_count uploadResponse) @ success_text_2
           @ toString (length (r_columns uploadResponse)) @ success_text_3)
        (date_uploaded calls))
     \<lparr>fileInfo := Some \<lparr>filename = r_filename uploadResponse,
          fileSize = r_file_size uploadResponse,
          fileType = (if endsWith (toLowerCase (r_filename uploadResponse)) ''.csv'' then csv else excel),
          file_id = r_file_id uploadResponse\<rparr>,
       tableData := Some \<lparr>data = r_preview uploadResponse, columns = r_columns uploadResponse,
          table_filename = r_filename uploadResponse\<rparr>\<rparr>"

text \<open>The message of the \<^verbatim>\<open>catch\<close> block:
  \<^verbatim>\<open>error instanceof Error ? error.message : <unknown error>\<close> after the prefix.\<close>

definition errorMessage :: "upload_calls \<Rightarrow> js_error \<Rightarrow> Message" where
  "errorMessage calls error =
     plain_message (mid (uploadStartMessage calls))
       (upload_error_prefix @
          (case error_message error of Some msg \<Rightarrow> msg | None \<Rightarrow> unknown_error_text))
       (date_error calls)"

definition replace_message :: "Message \<Rightarrow> Message list \<Rightarrow> Message list" where
  "replace_message new ms = map (\<lambda>msg. if mid msg = mid new then new else msg) ms"

text \<open>The \<^verbatim>\<open>try\<close> block: the state when it ends, and the error it throws, if any. What it has
  written to the state before a throw stays written.\<close>

definition try_upload :: "upload_calls \<Rightarrow> string \<Rightarrow> chat_state \<Rightarrow> chat_state \<times> js_error option" where
  "try_upload calls sessionId st =
     (case uploadFile_storage calls of
        Inl error \<Rightarrow> (st, Some error)
      | Inr fileMetadata \<Rightarrow>
          (case uploadFile_backend calls of
             Inl error \<Rightarrow> (st, Some error)
           | Inr uploadResponse \<Rightarrow>
               (let st1 = st\<lparr>uploadedFile := Some
                            \<lparr>uf_file_id = r_file_id uploadResponse,
                             uf_name = r_filename uploadResponse,
                             uf_size = r_file_size uploadResponse,
                             uf_columns = r_columns uploadResponse,
                             uf_rows = r_row_count uploadResponse,
                             uf_preview = r_preview uploadResponse,
                             uf_firebaseFileId = fm_id fileMetadata\<rparr>\<rparr>;
                    has_id = (case fm_id fileMetadata of None \<Rightarrow> False | Some i \<Rightarrow> i \<noteq> [])
                in if has_id \<and> updateFileMetadata_failed calls \<noteq> None
                   then (st1, updateFileMetadata_failed calls)
                   else
                     (let st2 = st1\<lparr>ui_messages :=
                                  replace_message (uploadMessage calls uploadResponse) (ui_messages st1)\<rparr>
                      in if persistent_session sessionId \<and> addMessage_failed calls \<noteq> None
                         then (st2, addMessage_failed calls)
                         else if persistent_session sessionId \<and> updateChatSession_failed calls \<noteq> None
                         then (st2, updateChatSession_failed calls)
                         else (st2, None)))))"

text \<open>\<^verbatim>\<open>handleFileUpload(file)\<close>: without a user it returns at once; it creates a session when
  there is none (a temporary one when that fails), appends the "uploading" message, runs
  the \<^verbatim>\<open>try\<close> block, and in the \<^verbatim>\<open>catch\<close> block puts the error message in the place of the
  message with the same id.\<close>

definition handleFileUpload :: "upload_calls \<Rightarrow> chat_state \<Rightarrow> chat_state" where
  "handleFileUpload calls st =
     (case ui_user st of
        None \<Rightarrow> st
      | Some uid \<Rightarrow>
          (let has_session = (case currentSessionId st of None \<Rightarrow> False | Some s \<Rightarrow> s \<noteq> []);
               sessionId =
                 (if has_session then the (currentSessionId st)
                  else (case createChatSession_result calls of
                          Inr created \<Rightarrow> created
                        | Inl error \<Rightarrow> ''temp_'' @ toString (now_session calls)));
               st0 = (if has_session then st else st\<lparr>currentSessionId := Some sessionId\<rparr>);
               st1 = st0\<lparr>ui_messages := ui_messages st0 @ [uploadStartMessage calls]\<rparr>
           in case try_upload calls sessionId st1 of
                (st2, None) \<Rightarrow> st2
              | (st2, Some error) \<Rightarrow>
                  st2\<lparr>ui_messages := replace_message (errorMessage calls error) (ui_messages st2)\<rparr>))"

section \<open>What the round trip takes from the language\<close>

text \<open>\<^verbatim>\<open>JSON.stringify\<close> of a JSON value is a text that is not empty, and \<^verbatim>\<open>JSON.parse\<close> of that
  text is the value.\<close>

definition json_round_trip :: "(json \<Rightarrow> string) \<Rightarrow> (string \<Rightarrow> json option) \<Rightarrow> json \<Rightarrow> bool" where
  "json_round_trip JSON_stringify JSON_parse v \<longleftrightarrow>
     JSON_stringify v \<noteq> [] \<and> JSON_parse (JSON_stringify v) = Some v"

section \<open>Properties of the streaming response assembler\<close>

subsection \<open>The message with the assistant's id\<close>

text \<open>The list holds one message with the assistant's id (\<^verbatim>\<open>handleSendMessage\<close> appends it
  with the id \<^verbatim>\<open>(Date.now() + 1).toString()\<close>, which no earlier message has). An updater of a
  chunk changes that message and no other.\<close>

declare strip_start.simps [simp del]
declare onChunk.simps [simp del]

lemma switch_chunk_mid [simp]: "mid (fst (switch_chunk ch m buf)) = mid m"
  by (cases ch) (auto simp: Let_def split: option.splits)

lemma map_messages_other:
  "a \<notin> mid ` set ms \<Longrightarrow> map_messages a ch ms buf fin = (ms, buf, fin)"
  by (induction ms) auto

lemma map_messages_target:
  "a \<notin> mid ` set pre \<Longrightarrow> a \<notin> mid ` set post \<Longrightarrow> mid m = a \<Longrightarrow>
   map_messages a ch (pre @ m # post) buf fin =
     (pre @ fst (switch_chunk ch m buf) # post, snd (switch_chunk ch m buf),
      fst (switch_chunk ch m buf))"
  by (induction pre) (auto simp: map_messages_other split: prod.splits)

lemma find_target:
  "a \<notin> mid ` set pre \<Longrightarrow> mid m = a \<Longrightarrow> find (\<lambda>x. mid x = a) (pre @ m # post) = Some m"
  by (induction pre) auto

lemma assistant_message_target:
  "messages st = pre @ m # post \<Longrightarrow> a \<notin> mid ` set pre \<Longrightarrow> mid m = a \<Longrightarrow>
   assistant_message a st = Some m"
  by (simp add: assistant_message_def find_target)

lemma switch_chunk_no_flush:
  assumes "\<not> is_analysis_complete ch \<or> codeExecution m \<noteq> None"
  shows "fst (switch_chunk ch m buf) = fst (switch_chunk ch m [])"
    and "snd (switch_chunk ch m buf) = buf"
  using assms by (cases ch; auto simp: Let_def split: option.splits)+

lemma switch_chunk_keeps_code:
  "codeExecution m \<noteq> None \<Longrightarrow> codeExecution (fst (switch_chunk ch m buf)) \<noteq> None"
  by (cases ch) (auto simp: Let_def split: option.splits)

lemma apply_chunks_Nil [simp]: "apply_chunks [] m = m"
  by (simp add: apply_chunks_def)

lemma apply_chunks_Cons [simp]:
  "apply_chunks (ch # chs) m = apply_chunks chs (fst (switch_chunk ch m []))"
  by (simp add: apply_chunks_def)

lemma apply_chunks_append:
  "apply_chunks (xs @ ys) m = apply_chunks ys (apply_chunks xs m)"
  by (simp add: apply_chunks_def)

lemma apply_chunks_mid [simp]: "mid (apply_chunks chs m) = mid m"
  by (induction chs arbitrary: m) simp_all

lemma apply_chunks_keeps_code:
  "codeExecution m \<noteq> None \<Longrightarrow> codeExecution (apply_chunks chs m) \<noteq> None"
proof (induction chs arbitrary: m)
  case Nil
  then show ?case by simp
next
  case (Cons ch chs)
  have "codeExecution (fst (switch_chunk ch m [])) \<noteq> None"
    using Cons.prems by (rule switch_chunk_keeps_code)
  then have "codeExecution (apply_chunks chs (fst (switch_chunk ch m []))) \<noteq> None"
    by (rule Cons.IH)
  then show ?case by simp
qed

lemma no_flush_append:
  "no_flush (xs @ ys) m \<longleftrightarrow> no_flush xs m \<and> no_flush ys (apply_chunks xs m)"
  by (induction xs arbitrary: m) auto

lemma no_flush_code:
  "codeExecution m \<noteq> None \<Longrightarrow> no_flush chs m"
proof (induction chs arbitrary: m)
  case Nil
  then show ?case by simp
next
  case (Cons ch chs)
  have "codeExecution (fst (switch_chunk ch m [])) \<noteq> None"
    using Cons.prems by (rule switch_chunk_keeps_code)
  then have "no_flush chs (fst (switch_chunk ch m []))"
    by (rule Cons.IH)
  then show ?case using Cons.prems by simp
qed

lemma run_chunk_updaters:
  assumes "a \<notin> mid ` set pre" "a \<notin> mid ` set post" "mid m = a" "no_flush qs m"
  shows "foldl (\<lambda>acc f. run_updater f acc) (pre @ m # post, buf, fin) (map (chunk_updater a) qs) =
           (pre @ apply_chunks qs m # post, buf, if qs = [] then fin else apply_chunks qs m)"
  using assms(3,4)
proof (induction qs arbitrary: m fin)
  case Nil
  then show ?case by simp
next
  case (Cons ch qs)
  let ?m' = "fst (switch_chunk ch m [])"
  have free: "\<not> is_analysis_complete ch \<or> codeExecution m \<noteq> None" and rest: "no_flush qs ?m'"
    using Cons.prems(2) by simp_all
  have step: "run_updater (chunk_updater a ch) (pre @ m # post, buf, fin) = (pre @ ?m' # post, buf, ?m')"
    using assms(1,2) Cons.prems(1) switch_chunk_no_flush[OF free, of buf]
    by (simp add: map_messages_target)
  have "foldl (\<lambda>acc f. run_updater f acc) (pre @ ?m' # post, buf, ?m') (map (chunk_updater a) qs) =
           (pre @ apply_chunks qs ?m' # post, buf, if qs = [] then ?m' else apply_chunks qs ?m')"
    using Cons.prems(1) rest by (intro Cons.IH) simp_all
  then show ?case
    by (cases "qs = []") (simp_all add: step del: run_updater.simps)
qed

lemma run_flush_updater:
  assumes "a \<notin> mid ` set pre" "a \<notin> mid ` set post" "mid m = a"
  shows "run_updater (flush_updater a) (pre @ m # post, buf, fin) =
           (pre @ m\<lparr>content := content m @ buf\<rparr> # post, buf, fin)"
proof -
  have other: "map (\<lambda>msg. if mid msg = a then msg\<lparr>content := content msg @ b\<rparr> else msg) ms = ms"
    if "a \<notin> mid ` set ms" for ms b
    using that by (induction ms) auto
  show ?thesis
    using assms other[of pre buf] other[of post buf] by auto
qed

lemma target_becomes_render:
  assumes "target_becomes a pre post st v"
  shows "messages (render st) = pre @ v # post" "pending (render st) = []"
    "textBuffer (render st) = textBuffer st" "lastTextUpdate (render st) = lastTextUpdate st"
    "target_becomes a pre post (render st) v"
proof -
  from assms obtain m qs where
    u: "a \<notin> mid ` set pre" "a \<notin> mid ` set post" and
    s: "messages st = pre @ m # post" "mid m = a" "pending st = map (chunk_updater a) qs"
       "no_flush qs m" "apply_chunks qs m = v"
    unfolding target_becomes_def by blast
  have run: "foldl (\<lambda>acc f. run_updater f acc) (messages st, textBuffer st, finalAssistantMessage st)
               (pending st) =
             (pre @ v # post, textBuffer st,
              if qs = [] then finalAssistantMessage st else apply_chunks qs m)"
    using run_chunk_updaters[OF u s(2) s(4)] s by simp
  show "messages (render st) = pre @ v # post" "pending (render st) = []"
    "textBuffer (render st) = textBuffer st" "lastTextUpdate (render st) = lastTextUpdate st"
    by (simp_all add: render_def run)
  then show "target_becomes a pre post (render st) v"
    using u s(2) s(5)[symmetric] unfolding target_becomes_def
    by (intro conjI exI[of _ v] exI[of _ "[]"]) simp_all
qed

lemma target_becomes_setMessages:
  assumes "target_becomes a pre post st v"
    and "\<not> is_analysis_complete ch \<or> codeExecution v \<noteq> None"
  shows "target_becomes a pre post (setMessages (chunk_updater a ch) st) (fst (switch_chunk ch v []))"
proof -
  from assms(1) obtain m qs where
    u: "a \<notin> mid ` set pre" "a \<notin> mid ` set post" and
    s: "messages st = pre @ m # post" "mid m = a" "pending st = map (chunk_updater a) qs"
       "no_flush qs m" "apply_chunks qs m = v"
    unfolding target_becomes_def by blast
  have "no_flush (qs @ [ch]) m" using s(4,5) assms(2) by (simp add: no_flush_append)
  moreover have "apply_chunks (qs @ [ch]) m = fst (switch_chunk ch v [])"
    using s(5) by (simp add: apply_chunks_append)
  ultimately show ?thesis
    using u s(1,2,3) unfolding target_becomes_def
    by (intro conjI exI[of _ m] exI[of _ "qs @ [ch]"]) (simp_all add: setMessages_def)
qed

lemma target_becomes_buffer:
  "target_becomes a pre post st v \<Longrightarrow>
   target_becomes a pre post (st\<lparr>textBuffer := b, lastTextUpdate := t\<rparr>) v"
  by (simp add: target_becomes_def)

lemma target_becomes_onChunk:
  assumes "target_becomes a pre post st v"
    and "\<not> is_analysis_complete ch \<or> codeExecution v \<noteq> None"
    and "\<forall>t\<in>set (text_times [(ch, now)]). lastTextUpdate st \<le> t"
  shows "target_becomes a pre post (onChunk a ch now st) (fst (switch_chunk ch v []))"
    and "textBuffer (onChunk a ch now st) = textBuffer st @ chunk_text ch"
    and "\<forall>t\<in>set (text_times [(ch, now)]). lastTextUpdate (onChunk a ch now st) = t"
    and "text_times [(ch, now)] = [] \<longrightarrow> lastTextUpdate (onChunk a ch now st) = lastTextUpdate st"
proof -
  show "target_becomes a pre post (onChunk a ch now st) (fst (switch_chunk ch v []))"
  proof (cases "\<exists>c. ch = text_stream c")
    case True
    then obtain c where ch: "ch = text_stream c" by blast
    have "target_becomes a pre post (st\<lparr>textBuffer := textBuffer st @ c, lastTextUpdate := now\<rparr>) v"
      using assms(1) by (rule target_becomes_buffer)
    then have "target_becomes a pre post
        (setMessages (chunk_updater a ch) (st\<lparr>textBuffer := textBuffer st @ c, lastTextUpdate := now\<rparr>))
        (fst (switch_chunk ch v []))"
      using assms(2) by (rule target_becomes_setMessages)
    then show ?thesis
      using assms(3) by (simp add: ch onChunk.simps TEXT_UPDATE_THROTTLE_def Let_def)
  next
    case False
    then have "onChunk a ch now st = setMessages (chunk_updater a ch) st"
      by (cases ch) (simp_all add: onChunk.simps)
    then show ?thesis
      using target_becomes_setMessages[OF assms(1,2)] by simp
  qed
  show "textBuffer (onChunk a ch now st) = textBuffer st @ chunk_text ch"
    by (cases ch) (simp_all add: onChunk.simps setMessages_def Let_def)
  show "\<forall>t\<in>set (text_times [(ch, now)]). lastTextUpdate (onChunk a ch now st) = t"
    using assms(3)
    by (cases ch) (simp_all add: onChunk.simps setMessages_def Let_def TEXT_UPDATE_THROTTLE_def)
  show "text_times [(ch, now)] = [] \<longrightarrow> lastTextUpdate (onChunk a ch now st) = lastTextUpdate st"
    by (cases ch) (simp_all add: onChunk.simps setMessages_def Let_def)
qed

lemma process_events_Nil [simp]: "process_events a [] st = st"
  by (simp add: process_events_def)

lemma process_events_Cons [simp]:
  "process_events a (ev # evs) st = process_events a evs (handle_event a st ev)"
  by (simp add: process_events_def)

lemma process_events_append:
  "process_events a (xs @ ys) st = process_events a ys (process_events a xs st)"
  by (simp add: process_events_def)

lemma text_times_Cons:
  "text_times ((ch, now) # cs) = text_times [(ch, now)] @ text_times cs"
  by (cases ch) simp_all

lemma target_becomes_process:
  assumes "target_becomes a pre post st v"
    and "no_flush (map fst (chunks_of evs)) v"
    and "sorted (text_times (chunks_of evs))"
    and "\<forall>t\<in>set (text_times (chunks_of evs)). lastTextUpdate st \<le> t"
  shows "target_becomes a pre post (process_events a evs st) (apply_chunks (map fst (chunks_of evs)) v)
       \<and> textBuffer (process_events a evs st) = textBuffer st @ stream_text (chunks_of evs)"
  using assms
proof (induction evs arbitrary: st v)
  case Nil
  then show ?case by (simp add: stream_text_def)
next
  case (Cons ev evs)
  show ?case
  proof (cases ev)
    case renders
    have st': "target_becomes a pre post (render st) v" "textBuffer (render st) = textBuffer st"
      "lastTextUpdate (render st) = lastTextUpdate st"
      using target_becomes_render[OF Cons.prems(1)] by simp_all
    have "target_becomes a pre post (process_events a evs (render st))
            (apply_chunks (map fst (chunks_of evs)) v)
       \<and> textBuffer (process_events a evs (render st)) =
            textBuffer (render st) @ stream_text (chunks_of evs)"
      using st'(1) Cons.prems(2,3,4) by (intro Cons.IH) (simp_all add: renders st'(3))
    then show ?thesis by (simp add: renders st'(2))
  next
    case (arrives ch now)
    let ?st' = "onChunk a ch now st"
    let ?v' = "fst (switch_chunk ch v [])"
    have times: "text_times (chunks_of (ev # evs)) = text_times [(ch, now)] @ text_times (chunks_of evs)"
      using text_times_Cons[of ch now "chunks_of evs"] by (simp add: arrives)
    have free: "\<not> is_analysis_complete ch \<or> codeExecution v \<noteq> None"
      and rest: "no_flush (map fst (chunks_of evs)) ?v'"
      using Cons.prems(2) by (simp_all add: arrives)
    have le: "\<forall>t\<in>set (text_times [(ch, now)]). lastTextUpdate st \<le> t"
      using Cons.prems(4) times by simp
    note step = target_becomes_onChunk[OF Cons.prems(1) free le]
    have srt: "sorted (text_times (chunks_of evs))"
      using Cons.prems(3) times by (simp add: sorted_append)
    have le': "\<forall>t\<in>set (text_times (chunks_of evs)). lastTextUpdate ?st' \<le> t"
    proof (cases "text_times [(ch, now)] = []")
      case True
      then show ?thesis using step(4) Cons.prems(4) times by simp
    next
      case False
      then obtain t where t: "text_times [(ch, now)] = [t]" by (cases ch) simp_all
      then have "lastTextUpdate ?st' = t" using step(3) by simp
      then show ?thesis using Cons.prems(3) times t by (simp add: sorted_append)
    qed
    have "target_becomes a pre post (process_events a evs ?st')
            (apply_chunks (map fst (chunks_of evs)) ?v')
       \<and> textBuffer (process_events a evs ?st') = textBuffer ?st' @ stream_text (chunks_of evs)"
      using step(1) rest srt le' by (rule Cons.IH)
    then show ?thesis by (simp add: arrives step(2) stream_text_def)
  qed
qed

lemma target_becomes_end:
  assumes "target_becomes a pre post st v"
  shows "messages (render (onComplete a st)) = pre @ v # post
       \<and> textBuffer (render (onComplete a st)) = []"
proof -
  from assms obtain m qs where
    u: "a \<notin> mid ` set pre" "a \<notin> mid ` set post" and
    s: "messages st = pre @ m # post" "mid m = a" "pending st = map (chunk_updater a) qs"
       "no_flush qs m" "apply_chunks qs m = v"
    unfolding target_becomes_def by blast
  have v: "mid v = a" using s(2,5) by auto
  show ?thesis
  proof (cases "textBuffer st = []")
    case True
    then have "onComplete a st = st" by (simp add: onComplete_def)
    then show ?thesis
      using target_becomes_render(1,3)[OF assms] True by simp
  next
    case False
    let ?st' = "onComplete a st"
    have st': "messages ?st' = pre @ m # post" "textBuffer ?st' = []"
      "pending ?st' = map (chunk_updater a) qs @ [flush_updater a]"
      using False s by (simp_all add: onComplete_def setMessages_def)
    have "foldl (\<lambda>acc f. run_updater f acc)
            (messages ?st', textBuffer ?st', finalAssistantMessage ?st') (pending ?st') =
          run_updater (flush_updater a)
            (pre @ v # post, [], if qs = [] then finalAssistantMessage ?st' else apply_chunks qs m)"
      using run_chunk_updaters[OF u s(2) s(4), of "[]" "finalAssistantMessage ?st'"] s(5)
      by (simp add: st' del: run_updater.simps)
    also have "\<dots> = (pre @ v\<lparr>content := content v @ []\<rparr> # post, [],
                      if qs = [] then finalAssistantMessage ?st' else apply_chunks qs m)"
      using u v by (rule run_flush_updater)
    finally show ?thesis
      by (simp add: render_def)
  qed
qed

lemma target_becomes_start:
  "a \<notin> mid ` set prev \<Longrightarrow>
   target_becomes a prev [] (stream_start prev a now) (initialAssistantMessage a now)"
  unfolding target_becomes_def
  by (intro conjI exI[of _ "initialAssistantMessage a now"] exI[of _ "[]"])
     (simp_all add: stream_start_def initialAssistantMessage_def)

text \<open>When React renders does not matter to a stream none of whose chunks comes to the flush
  of \<^verbatim>\<open>analysis_complete\<close>: its final message is the one the chunks build in turn.\<close>

lemma stream_to_end_message:
  assumes "a \<notin> mid ` set prev"
    and "no_flush (map fst (chunks_of evs)) (initialAssistantMessage a now)"
    and "sorted (text_times (chunks_of evs))"
  shows "messages (stream_to_end a evs (stream_start prev a now)) =
           prev @ [apply_chunks (map fst (chunks_of evs)) (initialAssistantMessage a now)]"
    and "assistant_message a (stream_to_end a evs (stream_start prev a now)) =
           Some (apply_chunks (map fst (chunks_of evs)) (initialAssistantMessage a now))"
    and "textBuffer (stream_to_end a evs (stream_start prev a now)) = []"
proof -
  let ?v = "apply_chunks (map fst (chunks_of evs)) (initialAssistantMessage a now)"
  have "target_becomes a prev [] (process_events a evs (stream_start prev a now)) ?v
       \<and> textBuffer (process_events a evs (stream_start prev a now)) =
            textBuffer (stream_start prev a now) @ stream_text (chunks_of evs)"
    using target_becomes_start[OF assms(1)] assms(2,3)
    by (rule target_becomes_process) (simp add: stream_start_def)
  then have tb: "target_becomes a prev [] (process_events a evs (stream_start prev a now)) ?v"
    by simp
  show m: "messages (stream_to_end a evs (stream_start prev a now)) = prev @ [?v]"
    using target_becomes_end[OF tb] by (simp add: stream_to_end_def)
  show "assistant_message a (stream_to_end a evs (stream_start prev a now)) = Some ?v"
    using m assms(1) by (rule assistant_message_target) (simp add: initialAssistantMessage_def)
  show "textBuffer (stream_to_end a evs (stream_start prev a now)) = []"
    using target_becomes_end[OF tb] by (simp add: stream_to_end_def)
qed

subsection \<open>Runs and their chunks\<close>

lemma chunks_of_append: "chunks_of (xs @ ys) = chunks_of xs @ chunks_of ys"
  by (induction xs rule: chunks_of.induct) simp_all

lemma text_times_append: "text_times (xs @ ys) = text_times xs @ text_times ys"
  by (induction xs rule: text_times.induct) simp_all

lemma text_times_text_chunks: "text_times (text_chunks cts) = map snd cts"
  by (induction cts) (simp_all add: text_chunks_def)

lemma no_flush_text_chunks: "no_flush (map fst (text_chunks cts)) m"
  by (induction cts arbitrary: m) (simp_all add: text_chunks_def)

lemma apply_text_chunks:
  "codeExecution m = None \<Longrightarrow>
   apply_chunks (map fst (text_chunks cts)) m = m\<lparr>content := content m @ concat (map fst cts)\<rparr>"
  by (induction cts arbitrary: m) (simp_all add: text_chunks_def Let_def)


subsection \<open>Streams of text chunks\<close>

text \<open>
  Claim C1, as amended. Let the stream consist of \<^verbatim>\<open>text_stream\<close> chunks only, handled under a
  clock that does not run backwards, and let React render at any points of the stream. After
  the end of the stream and its flush, the content of the assistant's message is the content
  it had when the stream was opened, the processing placeholder, followed by the contents of
  the chunks in the order of their arrival: no chunk is dropped, doubled or moved.
\<close>

theorem text_stream_only_content:
  assumes "a \<notin> mid ` set prev" and "chunks_of evs = text_chunks cts"
    and "sorted (map snd cts)"
  shows "map_option content (assistant_message a (stream_to_end a evs (stream_start prev a now)))
           = Some (processing_placeholder @ concat (map fst cts))"
proof -
  have "assistant_message a (stream_to_end a evs (stream_start prev a now)) =
          Some (apply_chunks (map fst (chunks_of evs)) (initialAssistantMessage a now))"
    using assms by (intro stream_to_end_message(2))
      (simp_all add: no_flush_text_chunks text_times_text_chunks)
  then show ?thesis
    using assms(2) by (simp add: apply_text_chunks initialAssistantMessage_def)
qed

text \<open>The statement at two chunks, \<open>Hel\<close> and \<open>lo\<close>, with a render between them.\<close>

theorem text_stream_only_content_witness:
  "''a1'' \<notin> mid ` set []
   \<and> chunks_of [arrives (text_stream ''Hel'') 3, renders, arrives (text_stream ''lo'') 4]
       = text_chunks [(''Hel'', 3), (''lo'', 4)]
   \<and> sorted (map snd [(''Hel'', 3::nat), (''lo'', 4)])
   \<and> map_option content (assistant_message ''a1''
          (stream_to_end ''a1''
             [arrives (text_stream ''Hel'') 3, renders, arrives (text_stream ''lo'') 4]
             (stream_start [] ''a1'' 0)))
        = Some (processing_placeholder @ ''Hello'')"
  using text_stream_only_content [of "''a1''" "[]"
      "[arrives (text_stream ''Hel'') 3, renders, arrives (text_stream ''lo'') 4]"
      "[(''Hel'', 3), (''lo'', 4)]" 0]
  by (simp add: text_chunks_def)

text \<open>Claim C1 as it is written fails: after the single chunk \<open>a\<close> and the end of the stream
  the content is the placeholder followed by \<open>a\<close>, not \<open>a\<close>.\<close>

theorem text_stream_only_content_counterexample:
  "map_option content (assistant_message ''a1''
      (stream_to_end ''a1'' [arrives (text_stream ''a'') 5] (stream_start [] ''a1'' 0)))
     = Some (processing_placeholder @ ''a'')
   \<and> map_option content (assistant_message ''a1''
      (stream_to_end ''a1'' [arrives (text_stream ''a'') 5] (stream_start [] ''a1'' 0)))
     \<noteq> Some ''a''"
  by (simp add: stream_to_end_def stream_start_def initialAssistantMessage_def onChunk.simps
      setMessages_def render_def onComplete_def assistant_message_def TEXT_UPDATE_THROTTLE_def
      Let_def process_events_def processing_placeholder_def)

subsection \<open>Code, then text\<close>



subsection \<open>Text that arrives while the code block is executing\<close>



text \<open>In general: a \<^verbatim>\<open>text_stream\<close> chunk that arrives while the code block is executing
  leaves no trace in the final messages, which are those of the same run without it.\<close>

lemma text_while_executing_is_dropped:
  assumes "a \<notin> mid ` set prev"
    and "no_flush (map fst (chunks_of before)) (initialAssistantMessage a now0)"
    and "codeExecution (apply_chunks (map fst (chunks_of before)) (initialAssistantMessage a now0))
           = Some block"
    and "isExecuting block"
    and "sorted (text_times (chunks_of (before @ arrives (text_stream c) now # after)))"
  shows "messages (stream_to_end a (before @ arrives (text_stream c) now # after)
                     (stream_start prev a now0))
       = messages (stream_to_end a (before @ after) (stream_start prev a now0))"
proof -
  let ?init = "initialAssistantMessage a now0"
  let ?m = "apply_chunks (map fst (chunks_of before)) ?init"
  have code: "codeExecution ?m \<noteq> None" using assms(3) by simp
  have same: "fst (switch_chunk (text_stream c) ?m []) = ?m"
    using assms(3,4) by simp
  have nf1: "no_flush (map fst (chunks_of (before @ arrives (text_stream c) now # after))) ?init"
    using assms(2) code same
    by (simp add: chunks_of_append no_flush_append no_flush_code)
  have nf2: "no_flush (map fst (chunks_of (before @ after))) ?init"
    using assms(2) code by (simp add: chunks_of_append no_flush_append no_flush_code)
  have s2: "sorted (text_times (chunks_of (before @ after)))"
    using assms(5) by (auto simp: chunks_of_append text_times_append sorted_append)
  have "apply_chunks (map fst (chunks_of (before @ arrives (text_stream c) now # after))) ?init
      = apply_chunks (map fst (chunks_of (before @ after))) ?init"
    using same by (simp add: chunks_of_append apply_chunks_append)
  then show ?thesis
    using stream_to_end_message(1)[OF assms(1) nf1 assms(5)]
      stream_to_end_message(1)[OF assms(1) nf2 s2]
    by simp
qed

subsection \<open>When the flush of the last chunk runs\<close>

text \<open>The flush of \<^verbatim>\<open>analysis_complete\<close>, on a message without a code block, reads \<^verbatim>\<open>textBuffer\<close>
  when React runs the updater. When the stream ends before React renders, \<^verbatim>\<open>onComplete\<close> has
  emptied the buffer by then, and the text stands once; when React renders before the end
  of the stream, the buffer still holds the text that the switch has appended, and it is
  appended again.\<close>

lemma analysis_complete_flush_at_render:
  "map_option content (assistant_message ''a1'' (stream_to_end ''a1''
      [arrives (text_stream ''a'') 1, arrives (analysis_complete None None None) 2]
      (stream_start [] ''a1'' 0))) = Some (processing_placeholder @ ''a'')"
  "map_option content (assistant_message ''a1'' (stream_to_end ''a1''
      [arrives (text_stream ''a'') 1, arrives (analysis_complete None None None) 2, renders]
      (stream_start [] ''a1'' 0))) = Some (processing_placeholder @ ''aa'')"
  by (simp_all add: stream_to_end_def stream_start_def initialAssistantMessage_def onChunk.simps
      setMessages_def render_def onComplete_def assistant_message_def TEXT_UPDATE_THROTTLE_def
      Let_def process_events_def)

subsection \<open>Text never touches the payloads\<close>

text \<open>The id and the payloads that an updater leaves depend on the ids and payloads it
  finds, and on nothing else: not on the contents and not on \<^verbatim>\<open>textBuffer\<close>. The updater of a
  \<^verbatim>\<open>text_stream\<close> chunk and the flush leave them as they are.\<close>

lemma switch_chunk_payloads:
  "payloads m = payloads m' \<Longrightarrow>
   payloads (fst (switch_chunk ch m buf)) = payloads (fst (switch_chunk ch m' buf'))"
  by (cases ch) (auto simp: payloads_def Let_def split: option.splits)

lemma switch_text_payloads:
  "payloads (fst (switch_chunk (text_stream c) m buf)) = payloads m"
  by (simp add: payloads_def Let_def)

lemma map_messages_payloads:
  "map payloads ms = map payloads ms' \<Longrightarrow>
   map payloads (fst (map_messages a ch ms buf fin))
     = map payloads (fst (map_messages a ch ms' buf' fin'))"
proof (induction ms arbitrary: ms' buf fin buf' fin')
  case Nil
  then show ?case by simp
next
  case (Cons m ms)
  then obtain m' rest' where ms': "ms' = m' # rest'" "payloads m = payloads m'"
      "map payloads ms = map payloads rest'"
    by (cases ms') auto
  have same_id: "mid m = mid m'" using ms'(2) by (simp add: payloads_def)
  show ?case
  proof (cases "mid m = a")
    case True
    have "payloads (fst (switch_chunk ch m buf)) = payloads (fst (switch_chunk ch m' buf'))"
      using ms'(2) by (rule switch_chunk_payloads)
    moreover have "map payloads (fst (map_messages a ch ms (snd (switch_chunk ch m buf))
                                        (fst (switch_chunk ch m buf))))
                 = map payloads (fst (map_messages a ch rest' (snd (switch_chunk ch m' buf'))
                                        (fst (switch_chunk ch m' buf'))))"
      using ms'(3) by (rule Cons.IH)
    ultimately show ?thesis
      using True same_id by (simp add: ms'(1) split_def)
  next
    case False
    have "map payloads (fst (map_messages a ch ms buf fin))
        = map payloads (fst (map_messages a ch rest' buf' fin'))"
      using ms'(3) by (rule Cons.IH)
    then show ?thesis
      using False same_id ms'(2) by (simp add: ms'(1) split_def)
  qed
qed

lemma map_messages_text_payloads:
  "map payloads (fst (map_messages a (text_stream c) ms buf fin)) = map payloads ms"
  by (induction ms arbitrary: buf fin)
     (simp_all add: split_def switch_text_payloads del: switch_chunk.simps)

lemma run_updater_payloads:
  assumes "map payloads (fst x) = map payloads (fst x')"
  shows "map payloads (fst (run_updater f x)) = map payloads (fst (run_updater f x'))"
proof -
  obtain ms buf fin where x: "x = (ms, buf, fin)" by (cases x)
  obtain ms' buf' fin' where x': "x' = (ms', buf', fin')" by (cases x')
  have eq: "map payloads ms = map payloads ms'" using assms by (simp add: x x')
  show ?thesis
  proof (cases f)
    case (chunk_updater a ch)
    then show ?thesis
      using map_messages_payloads[OF eq, of a ch buf fin buf' fin'] by (simp add: x x')
  next
    case (flush_updater a)
    have "payloads \<circ> (\<lambda>msg. if mid msg = a
                 then msg\<lparr>content := content msg @ b\<rparr> else msg) = payloads" for b
      by (rule ext) (simp add: payloads_def)
    then show ?thesis using eq by (simp add: x x' flush_updater)
  next
    case (error_updater a error)
    define E where "E = (\<lambda>p :: string \<times> json option \<times> tableData_t option \<times> codeExecution_t option.
        if fst p = a
        then (fst p, fst (snd p), fst (snd (snd p)),
              map_option (\<lambda>ce. ce\<lparr>isExecuting := False\<rparr>) (snd (snd (snd p))))
        else p)"
    have "payloads \<circ> (\<lambda>msg. if mid msg = a
                 then msg\<lparr>content := b,
                          codeExecution :=
                            map_option (\<lambda>ce. ce\<lparr>isExecuting := False\<rparr>) (codeExecution msg)\<rparr>
                 else msg) = E \<circ> payloads" for b
      by (rule ext) (simp add: payloads_def E_def)
    moreover have "map (E \<circ> payloads) ms = map (E \<circ> payloads) ms'"
      using arg_cong[OF eq, of "map E"] by simp
    ultimately show ?thesis by (simp add: x x' error_updater)
  qed
qed

lemma run_updaters_payloads:
  "map payloads (fst x) = map payloads (fst x') \<Longrightarrow>
   map payloads (fst (foldl (\<lambda>acc f. run_updater f acc) x fs))
     = map payloads (fst (foldl (\<lambda>acc f. run_updater f acc) x' fs))"
proof (induction fs arbitrary: x x')
  case Nil
  then show ?case by simp
next
  case (Cons f fs)
  have "map payloads (fst (run_updater f x)) = map payloads (fst (run_updater f x'))"
    using Cons.prems by (rule run_updater_payloads)
  then have "map payloads (fst (foldl (\<lambda>acc f. run_updater f acc) (run_updater f x) fs))
     = map payloads (fst (foldl (\<lambda>acc f. run_updater f acc) (run_updater f x') fs))"
    by (rule Cons.IH)
  then show ?case by simp
qed

lemma run_content_only:
  assumes "writes_content_only f"
  shows "map payloads (fst (run_updater f x)) = map payloads (fst x)"
proof -
  obtain ms buf fin where x: "x = (ms, buf, fin)" by (cases x)
  show ?thesis
  proof (cases f)
    case (chunk_updater a ch)
    then obtain c where "ch = text_stream c" using assms by (cases ch) simp_all
    then show ?thesis using chunk_updater by (simp add: x map_messages_text_payloads)
  next
    case (flush_updater a)
    then show ?thesis by (simp add: x payloads_def)
  next
    case (error_updater a error)
    then show ?thesis using assms by simp
  qed
qed

lemma messages_render:
  "messages (render st) =
     fst (foldl (\<lambda>acc f. run_updater f acc)
            (messages st, textBuffer st, finalAssistantMessage st) (pending st))"
  by (simp add: render_def split_def)

lemma pending_render [simp]: "pending (render st) = []"
  by (simp add: render_def split_def)

lemma render_render: "messages (render (render st)) = messages (render st)"
  by (simp add: messages_render[of "render st"])

lemma render_after_text:
  "map payloads (messages (render (onChunk a (text_stream c) now st)))
     = map payloads (messages (render st))"
proof -
  let ?run = "foldl (\<lambda>acc f. run_updater f acc)"
  have base: "map payloads (fst (?run (messages st, textBuffer st @ c, finalAssistantMessage st)
                                    (pending st)))
            = map payloads (fst (?run (messages st, textBuffer st, finalAssistantMessage st)
                                    (pending st)))"
    by (rule run_updaters_payloads) simp
  show ?thesis
  proof (cases "int now - int (lastTextUpdate st) < TEXT_UPDATE_THROTTLE")
    case True
    then show ?thesis using base by (simp add: onChunk.simps messages_render)
  next
    case False
    then show ?thesis
      using base by (simp add: onChunk.simps messages_render setMessages_def run_content_only)
  qed
qed

lemma render_after_complete:
  "map payloads (messages (render (onComplete a st))) = map payloads (messages (render st))"
proof (cases "textBuffer st = []")
  case True
  then show ?thesis by (simp add: onComplete_def)
next
  case False
  let ?run = "foldl (\<lambda>acc f. run_updater f acc)"
  have "map payloads (fst (?run (messages st, [], finalAssistantMessage st) (pending st)))
      = map payloads (fst (?run (messages st, textBuffer st, finalAssistantMessage st)
                              (pending st)))"
    by (rule run_updaters_payloads) simp
  then show ?thesis
    using False by (simp add: onComplete_def messages_render setMessages_def run_content_only)
qed

lemma render_after_text_events:
  "chunks_of evs = text_chunks cts \<Longrightarrow>
   map payloads (messages (render (process_events a evs st)))
     = map payloads (messages (render st))"
proof (induction evs arbitrary: st cts)
  case Nil
  then show ?case by simp
next
  case (Cons ev evs)
  show ?case
  proof (cases ev)
    case (arrives ch now)
    with Cons.prems obtain c cts' where ch: "ch = text_stream c"
        and rest: "chunks_of evs = text_chunks cts'"
      by (cases cts) (auto simp: text_chunks_def)
    have "map payloads (messages (render (process_events a evs (onChunk a ch now st))))
        = map payloads (messages (render (onChunk a ch now st)))"
      using rest by (rule Cons.IH)
    then show ?thesis using arrives ch by (simp add: render_after_text)
  next
    case renders
    with Cons.prems have rest: "chunks_of evs = text_chunks cts" by simp
    have "map payloads (messages (render (process_events a evs (render st))))
        = map payloads (messages (render (render st)))"
      using rest by (rule Cons.IH)
    then show ?thesis using renders by (simp add: render_render)
  qed
qed

lemma payloads_fields:
  assumes "map payloads ms = map payloads ms'"
  shows "map chartData ms = map chartData ms'" and "map tableData ms = map tableData ms'"
    and "map codeExecution ms = map codeExecution ms'"
proof -
  have c: "chartData = (fst \<circ> snd) \<circ> payloads" "tableData = (fst \<circ> snd \<circ> snd) \<circ> payloads"
    "codeExecution = (snd \<circ> snd \<circ> snd) \<circ> payloads"
    by (rule ext, simp add: payloads_def)+
  show "map chartData ms = map chartData ms'"
    using arg_cong[OF assms, of "map (fst \<circ> snd)"] by (simp add: c(1))
  show "map tableData ms = map tableData ms'"
    using arg_cong[OF assms, of "map (fst \<circ> snd \<circ> snd)"] by (simp add: c(2))
  show "map codeExecution ms = map codeExecution ms'"
    using arg_cong[OF assms, of "map (snd \<circ> snd \<circ> snd)"] by (simp add: c(3))
qed

lemma render_content_only:
  assumes "list_all writes_content_only (pending st)"
  shows "map payloads (messages (render st)) = map payloads (messages st)"
proof -
  have "list_all writes_content_only fs \<Longrightarrow>
        map payloads (fst (foldl (\<lambda>acc f. run_updater f acc) x fs)) = map payloads (fst x)"
    for fs x
    by (induction fs arbitrary: x) (simp_all add: run_content_only)
  from this[OF assms] show ?thesis by (simp add: messages_render)
qed

text \<open>
  Claim C8. Let every chunk of a run be a \<^verbatim>\<open>text_stream\<close> chunk, and let the run start in any
  state: any messages, with any updaters still queued (those of \<^verbatim>\<open>chart_generated\<close>,
  \<^verbatim>\<open>code_complete_display\<close> or \<^verbatim>\<open>code_execution_result\<close> chunks handled before). Then the chart,
  table and code payloads of every message are, at a render after the run and after the
  end of the stream, what a render of the starting state makes them: what the earlier
  chunks have set is not changed by the text.
\<close>

theorem text_stream_keeps_payloads:
  assumes "chunks_of evs = text_chunks cts"
  shows "map chartData (messages (render (process_events a evs st)))
           = map chartData (messages (render st))
       \<and> map tableData (messages (render (process_events a evs st)))
           = map tableData (messages (render st))
       \<and> map codeExecution (messages (render (process_events a evs st)))
           = map codeExecution (messages (render st))
       \<and> map chartData (messages (stream_to_end a evs st)) = map chartData (messages (render st))
       \<and> map tableData (messages (stream_to_end a evs st)) = map tableData (messages (render st))
       \<and> map codeExecution (messages (stream_to_end a evs st))
           = map codeExecution (messages (render st))"
proof -
  have run: "map payloads (messages (render (process_events a evs st)))
           = map payloads (messages (render st))"
    using assms by (rule render_after_text_events)
  have "map payloads (messages (stream_to_end a evs st))
      = map payloads (messages (render (process_events a evs st)))"
    by (simp add: stream_to_end_def render_after_complete)
  with run have "map payloads (messages (stream_to_end a evs st))
      = map payloads (messages (render st))"
    by simp
  from payloads_fields[OF run] payloads_fields[OF this] show ?thesis by simp
qed

text \<open>The statement on two text chunks that arrive while the updater of a
  \<^verbatim>\<open>chart_generated\<close> chunk is queued.\<close>

theorem text_stream_keeps_payloads_witness:
  "chunks_of [arrives (text_stream ''It '') 3, renders, arrives (text_stream ''works'') 4]
     = text_chunks [(''It '', 3), (''works'', 4)]
   \<and> map chartData (messages (render
        (setMessages (chunk_updater ''a1'' (chart_generated (Some (JNum 1))))
           (stream_start [] ''a1'' 0))))
     = [Some (JNum 1)]
   \<and> map chartData (messages (stream_to_end ''a1''
        [arrives (text_stream ''It '') 3, renders, arrives (text_stream ''works'') 4]
        (setMessages (chunk_updater ''a1'' (chart_generated (Some (JNum 1))))
           (stream_start [] ''a1'' 0))))
     = [Some (JNum 1)]"
proof -
  let ?st = "setMessages (chunk_updater ''a1'' (chart_generated (Some (JNum 1))))
               (stream_start [] ''a1'' 0)"
  let ?evs = "[arrives (text_stream ''It '') 3, renders, arrives (text_stream ''works'') 4]"
  have chunks: "chunks_of ?evs = text_chunks [(''It '', 3), (''works'', 4)]"
    by (simp add: text_chunks_def)
  have before: "map chartData (messages (render ?st)) = [Some (JNum 1)]"
    by (simp add: render_def setMessages_def stream_start_def initialAssistantMessage_def)
  show ?thesis
    using text_stream_keeps_payloads[OF chunks, of "''a1''" ?st] chunks before by simp
qed

text \<open>When the payloads are in the messages already, and only updaters of text chunks or
  flushes are queued, the messages have the same payloads all along.\<close>

lemma text_stream_keeps_set_payloads:
  assumes "list_all writes_content_only (pending st)"
    and "chunks_of evs = text_chunks cts"
  shows "map payloads (messages (process_events a evs st)) = map payloads (messages st)"
    and "map payloads (messages (stream_to_end a evs st)) = map payloads (messages st)"
proof -
  have inv: "list_all writes_content_only (pending (process_events a evs st))
             \<and> map payloads (messages (process_events a evs st)) = map payloads (messages st)"
    using assms
  proof (induction evs arbitrary: st cts)
    case Nil
    then show ?case by simp
  next
    case (Cons ev evs)
    show ?case
    proof (cases ev)
      case (arrives ch now)
      with Cons.prems obtain c cts' where ch: "ch = text_stream c"
          and rest: "chunks_of evs = text_chunks cts'"
        by (cases cts) (auto simp: text_chunks_def)
      have q: "list_all writes_content_only (pending (onChunk a ch now st))"
        and m: "messages (onChunk a ch now st) = messages st"
        using Cons.prems(1) by (simp_all add: ch onChunk.simps setMessages_def Let_def)
      from Cons.IH[OF q rest] m arrives show ?thesis by simp
    next
      case renders
      with Cons.prems have rest: "chunks_of evs = text_chunks cts" by simp
      have q: "list_all writes_content_only (pending (render st))" by simp
      from Cons.IH[OF q rest] render_content_only[OF Cons.prems(1)] renders
      show ?thesis by simp
    qed
  qed
  then show "map payloads (messages (process_events a evs st)) = map payloads (messages st)"
    by simp
  have "list_all writes_content_only (pending (onComplete a (process_events a evs st)))"
    and "messages (onComplete a (process_events a evs st)) = messages (process_events a evs st)"
    using inv by (simp_all add: onComplete_def setMessages_def)
  then show "map payloads (messages (stream_to_end a evs st)) = map payloads (messages st)"
    using inv by (simp add: stream_to_end_def render_content_only)
qed

section \<open>Properties of the persistence adapter\<close>

declare toString.simps [simp del]

subsection \<open>Listing the sessions of a user\<close>

lemma session_fields [simp]:
  "d_userId (chat_doc.extend d (ChatSession.fields i)) = d_userId d"
  "d_status (chat_doc.extend d (ChatSession.fields i)) = d_status d"
  "d_updatedAt (chat_doc.extend d (ChatSession.fields i)) = d_updatedAt d"
  "s_id (chat_doc.extend d (ChatSession.fields i)) = i"
  by (simp_all add: chat_doc.extend_def ChatSession.fields_def)

lemma query_user:
  "e \<in> set (query_by_user_updated_desc col userId) \<Longrightarrow>
     d_userId (snd e) = Some userId \<and> d_updatedAt (snd e) = Some (updated_key e)"
  by (auto simp: query_by_user_updated_desc_def updated_key_def)

lemma query_sorted:
  "sorted (rev (map updated_key (filter P (query_by_user_updated_desc col userId))))"
proof -
  let ?srt = "sort_key updated_key
     (filter (\<lambda>e. d_userId (snd e) = Some userId \<and> d_updatedAt (snd e) \<noteq> None) col)"
  have "sorted (map updated_key ?srt)" by (rule sorted_sort_key)
  then have "sorted (map updated_key (filter P ?srt))" by (rule sorted_filter)
  then show ?thesis
    by (simp add: query_by_user_updated_desc_def rev_map rev_filter)
qed

text \<open>
  Claim C5. For every user and every content of the collection, when the query succeeds
  \<open>getChatSessions\<close> returns sessions that all belong to that user, none of which has the
  status \<^verbatim>\<open>'deleted'\<close>, and that all carry an update time, in descending order of it.
\<close>

theorem getChatSessions_own_active_descending:
  "\<exists>sessions ts.
      getChatSessions (Some col) None userId = Inr sessions
    \<and> (\<forall>s\<in>set sessions. d_userId s = Some userId \<and> d_status s \<noteq> Some ''deleted'')
    \<and> map d_updatedAt sessions = map Some ts \<and> sorted (rev ts)"
proof -
  let ?keep = "\<lambda>session::ChatSession. d_status session = None \<or> d_status session = Some []
                   \<or> d_status session = Some ''active''"
  let ?ext = "\<lambda>e. chat_doc.extend (snd e) (ChatSession.fields (fst e))"
  let ?q = "query_by_user_updated_desc col userId"
  let ?sessions = "filter ?keep (map ?ext ?q)"
  let ?ts = "map updated_key (filter (?keep \<circ> ?ext) ?q)"
  have res: "getChatSessions (Some col) None userId = Inr ?sessions"
    by (simp add: getChatSessions_def)
  have own: "\<forall>s\<in>set ?sessions. d_userId s = Some userId \<and> d_status s \<noteq> Some ''deleted''"
    using query_user[of _ col userId] by auto
  have "map d_updatedAt ?sessions = map (\<lambda>e. d_updatedAt (snd e)) (filter (?keep \<circ> ?ext) ?q)"
    by (simp add: filter_map comp_def)
  also have "\<dots> = map (\<lambda>e. Some (updated_key e)) (filter (?keep \<circ> ?ext) ?q)"
    using query_user[of _ col userId] by (intro map_cong) auto
  finally have ts: "map d_updatedAt ?sessions = map Some ?ts"
    by (simp add: comp_def)
  have "sorted (rev ?ts)" by (rule query_sorted)
  with res own ts show ?thesis by blast
qed

text \<open>The statement on a collection of four sessions: one deleted, one of another user, and
  two that are listed, the later one first.\<close>

theorem getChatSessions_own_active_descending_witness:
  "map_sum id (map (\<lambda>s. (s_id s, d_userId s, d_status s, d_updatedAt s)))
     (getChatSessions (Some
        [(''s1'', empty_doc\<lparr>d_userId := Some ''u1'', d_status := Some ''active'', d_updatedAt := Some 5\<rparr>),
         (''s2'', empty_doc\<lparr>d_userId := Some ''u1'', d_status := Some ''deleted'', d_updatedAt := Some 9\<rparr>),
         (''s3'', empty_doc\<lparr>d_userId := Some ''u2'', d_status := Some ''active'', d_updatedAt := Some 8\<rparr>),
         (''s4'', empty_doc\<lparr>d_userId := Some ''u1'', d_updatedAt := Some 6\<rparr>)]) None ''u1'')
   = Inr [(''s4'', Some ''u1'', None, Some 6), (''s1'', Some ''u1'', Some ''active'', Some 5)]"
  using getChatSessions_own_active_descending
    [of "[(''s1'', empty_doc\<lparr>d_userId := Some ''u1'', d_status := Some ''active'', d_updatedAt := Some 5\<rparr>),
         (''s2'', empty_doc\<lparr>d_userId := Some ''u1'', d_status := Some ''deleted'', d_updatedAt := Some 9\<rparr>),
         (''s3'', empty_doc\<lparr>d_userId := Some ''u2'', d_status := Some ''active'', d_updatedAt := Some 8\<rparr>),
         (''s4'', empty_doc\<lparr>d_userId := Some ''u1'', d_updatedAt := Some 6\<rparr>)]" "''u1''"]
  by (simp add: getChatSessions_def query_by_user_updated_desc_def updated_key_def empty_doc_def)

text \<open>A session that \<open>deleteChatSession\<close> has marked is not listed any more.\<close>

lemma deleted_session_not_listed:
  assumes "deleteChatSession (Some col) None serverNow sessionId = (Inr (), Some col', logged)"
    and "getChatSessions (Some col') None userId = Inr sessions"
    and "distinct (map fst col)"
  shows "sessionId \<notin> s_id ` set sessions"
proof -
  let ?del = "\<lambda>d::chat_doc. d\<lparr>d_status := Some ''deleted'', d_updatedAt := Some serverNow\<rparr>"
  have col': "col' = setDoc_merge col sessionId ?del"
    using assms(1) by (simp add: deleteChatSession_def)
  have one: "d_status d = Some ''deleted''" if "(sessionId, d) \<in> set col'" for d
  proof -
    have "distinct (map fst col')"
      using assms(3) by (simp add: col' setDoc_merge_def distinct_update)
    then have "map_of col' sessionId = Some d" using that by simp
    then have "d = ?del (case map_of col sessionId of None \<Rightarrow> empty_doc | Some d \<Rightarrow> d)"
      by (simp add: col' setDoc_merge_def update_conv')
    then show ?thesis by simp
  qed
  have "d_status (snd e) \<noteq> Some ''deleted''"
    if "chat_doc.extend (snd e) (ChatSession.fields (fst e)) \<in> set sessions" for e
    using that assms(2) by (auto simp: getChatSessions_def)
  moreover have "e \<in> set col'" if "e \<in> set (query_by_user_updated_desc col' userId)" for e
    using that by (auto simp: query_by_user_updated_desc_def)
  ultimately show ?thesis
    using assms(2) one by (fastforce simp: getChatSessions_def)
qed

subsection \<open>Creating a session\<close>

text \<open>
  Claim C6. The store handle \<^verbatim>\<open>db\<close> is assigned once, from \<^verbatim>\<open>getFirestore(app)\<close>, and is a store
  for every call. \<open>createChatSession\<close> then either adds a record that is active and has an
  empty message list, under the id the store generates, and returns that id; or, when the
  store rejects the write, logs the error and throws it to the caller, leaving the
  collection as it was. Whatever \<^verbatim>\<open>addDoc\<close> does is one of the two, so no call returns without
  the id of a new record or an error thrown.
\<close>

theorem createChatSession_outcomes:
  "createChatSession (Some col) (Inr newId) serverNow userId title =
      (Inr newId,
       Some (col @ [(newId, empty_doc\<lparr>d_userId := Some userId,
                       d_title := Some (case title of None \<Rightarrow> ''New Chat'' | Some t \<Rightarrow> t),
                       d_status := Some ''active'', d_messages := Some [],
                       d_createdAt := Some serverNow, d_updatedAt := Some serverNow\<rparr>)]),
       [])
   \<and> createChatSession (Some col) (Inl error) serverNow userId title =
      (Inl error, Some col, [console_error ''Failed to create chat session:''])"
  by (simp add: createChatSession_def addDoc_def)

subsection \<open>Failing reads\<close>

text \<open>
  Claim C7, as amended. When the store rejects the read, \<open>getChatSessions\<close> and \<open>getMessages\<close>
  throw the store's error to their caller and log nothing. The failure is logged and turned
  into an empty result one level up: by \<open>loadChatHistory\<close> for the sessions and by
  \<open>subscribeToMessages\<close> for the messages. \<open>getMessages\<close> itself returns the empty list, after
  logging, only when there is no store handle.
\<close>

theorem read_failures_propagate:
  "getChatSessions (Some col) (Some error) userId = Inl error
   \<and> getMessages (Some col) (Some error) JSON_parse sessionId = (Inl error, [])
   \<and> loadChatHistory (Some col) (Some error) userId =
        ([], [console_warn ''Failed to load chat history (continuing without it):''])
   \<and> subscribeToMessages (Some col) (Some error) JSON_parse sessionId =
        ([], [console_warn ''Failed to load messages:''])
   \<and> getMessages None failed JSON_parse sessionId =
        (Inr [], [console_error ''Firestore not initialized in getMessages''])"
  by (simp add: getChatSessions_def getMessages_def loadChatHistory_def subscribeToMessages_def)

text \<open>Claim C7 as it is written fails: a rejected read of the messages, or of the sessions,
  reaches the caller as the store's error, not as an empty list.\<close>

theorem read_failures_counterexample:
  "getMessages (Some []) (Some (JsError ''unavailable'')) (map_of []) ''s1''
     = (Inl (JsError ''unavailable''), [])
   \<and> getChatSessions (Some []) (Some (JsError ''unavailable'')) ''u1''
     = Inl (JsError ''unavailable'')"
  by (simp add: getMessages_def getChatSessions_def)

subsection \<open>Appending to a session that does not exist\<close>

lemma addMessage_missing_session:
  "getDoc col (cm_sessionId message) = None \<Longrightarrow>
   addMessage (Some col) None None clk JSON_stringify message =
     (Inl (ReferenceError ''sanitizedMessage is not defined''), Some col,
      [console_warn ''Chat session not found, creating new session:'',
       console_error ''Failed to add message:''])"
  by (simp add: addMessage_def)

text \<open>
  Claim C10. \<open>addMessage\<close> for the session id \<open>s9\<close> on a reachable store that has no such
  record: the claim says that a record titled \<^verbatim>\<open>'New Chat'\<close> is created with the message in
  it, and that \<open>getMessages\<close> then returns the message. The code throws a \<^verbatim>\<open>ReferenceError\<close>
  to the caller, because the branch reads \<^verbatim>\<open>sanitizedMessage\<close>, which is declared in the other
  branch; the store is unchanged, and \<open>getMessages\<close> returns the empty list.
\<close>

theorem addMessage_missing_session_throws:
  "addMessage (Some []) None None \<lparr>Date_now = 100, new_Date = 101, serverTimestamp = 102\<rparr>
       (the \<circ> map_of [])
       \<lparr>cm_id = None, cm_sessionId = ''s9'', cm_userId = ''u1'', cm_type = user,
        cm_content = ''hello'', cm_timestamp = 99, cm_chartData = None, cm_insights = None,
        cm_followUpQuestions = None, cm_fileInfo = None, cm_tableData = Undefined,
        cm_codeExecution = None\<rparr>
     = (Inl (ReferenceError ''sanitizedMessage is not defined''), Some [],
        [console_warn ''Chat session not found, creating new session:'',
         console_error ''Failed to add message:''])
   \<and> getMessages (Some []) None (map_of []) ''s9''
     = (Inr [], [console_warn ''Chat document does not exist for session:''])"
  by (simp add: addMessage_def getMessages_def getDoc_def)
subsection \<open>Appending a message and reading it back\<close>

lemma getDoc_setDoc_merge:
  "getDoc col docId = Some d \<Longrightarrow> getDoc (setDoc_merge col docId f) docId = Some (f d)"
  by (simp add: getDoc_def setDoc_merge_def update_conv')

lemma processedMessage_new:
  assumes chart: "\<forall>chart. cm_chartData message = Some chart \<and> truthy chart
              \<longrightarrow> json_round_trip JSON_stringify JSON_parse chart"
    and table: "\<forall>table. cm_tableData message = Defined table
              \<longrightarrow> json_round_trip JSON_stringify JSON_parse (data table)"
  shows "processedMessage JSON_parse (newMessage messageId date (sanitizedMessage JSON_stringify message)) =
     (message\<lparr>cm_id := Some (case cm_id message of None \<Rightarrow> messageId | Some i \<Rightarrow> i),
        cm_timestamp := date,
        cm_chartData := Some (case cm_chartData message of
                          None \<Rightarrow> JNull | Some chart \<Rightarrow> if truthy chart then chart else JNull),
        cm_tableData := (case cm_tableData message of Defined table \<Rightarrow> Defined table | _ \<Rightarrow> Null)\<rparr>,
      [])"
proof -
  have c: "parse_chartData JSON_parse
             (Some (case cm_chartData message of None \<Rightarrow> JNull
                    | Some chart \<Rightarrow> if truthy chart then JStr (JSON_stringify chart) else JNull))
           = (case cm_chartData message of
                None \<Rightarrow> JNull | Some chart \<Rightarrow> if truthy chart then chart else JNull, [])"
    using chart by (auto simp: parse_chartData_def json_round_trip_def split: option.splits)
  have t: "parse_tableData JSON_parse
             (case cm_tableData message of
                Defined table \<Rightarrow> Defined (table\<lparr>data := JStr (JSON_stringify (data table))\<rparr>)
              | _ \<Rightarrow> Null)
           = (case cm_tableData message of Defined table \<Rightarrow> Defined table | _ \<Rightarrow> Null, [])"
    using table by (auto simp: parse_tableData_def json_round_trip_def split: nullable.splits)
  show ?thesis
    by (simp add: processedMessage_def newMessage_def sanitizedMessage_def c t)
qed

text \<open>
  Claim C4, as amended. Let the session record exist and the store accept the calls, and
  let \<^verbatim>\<open>JSON.parse\<close> invert \<^verbatim>\<open>JSON.stringify\<close> on the payloads of the message. Then \<open>addMessage\<close>
  returns the minted id, and \<open>getMessages\<close> afterwards returns the messages it returned
  before, in the same order, followed by the new message: with the id and the time stamp
  that \<open>addMessage\<close> gave it, with the table payload as it was passed, and with the chart
  payload as it was passed when that is a truthy value. A chart payload that is missing or
  falsy (\<^verbatim>\<open>null\<close>, \<^verbatim>\<open>false\<close>, \<^verbatim>\<open>0\<close>, the empty string) comes back as \<^verbatim>\<open>null\<close>, and a missing
  table payload comes back as \<^verbatim>\<open>null\<close>.
\<close>

theorem addMessage_getMessages_round_trip:
  assumes session: "getDoc col (cm_sessionId message) = Some chatData"
    and chart: "\<forall>chart. cm_chartData message = Some chart \<and> truthy chart
              \<longrightarrow> json_round_trip JSON_stringify JSON_parse chart"
    and table: "\<forall>table. cm_tableData message = Defined table
              \<longrightarrow> json_round_trip JSON_stringify JSON_parse (data table)"
  shows "\<exists>col' before returned.
      addMessage (Some col) None None clk JSON_stringify message =
        (Inr (toString (Date_now clk)), Some col', [])
    \<and> fst (getMessages (Some col) None JSON_parse (cm_sessionId message)) = Inr before
    \<and> fst (getMessages (Some col') None JSON_parse (cm_sessionId message)) = Inr (before @ [returned])
    \<and> returned =
        message\<lparr>cm_id := Some (case cm_id message of None \<Rightarrow> toString (Date_now clk) | Some i \<Rightarrow> i),
          cm_timestamp := new_Date clk,
          cm_chartData := Some (case cm_chartData message of
                            None \<Rightarrow> JNull | Some chart \<Rightarrow> if truthy chart then chart else JNull),
          cm_tableData := (case cm_tableData message of Defined table \<Rightarrow> Defined table | _ \<Rightarrow> Null)\<rparr>"
proof -
  let ?sid = "cm_sessionId message"
  let ?old = "case d_messages chatData of None \<Rightarrow> [] | Some ms \<Rightarrow> ms"
  let ?new = "newMessage (toString (Date_now clk)) (new_Date clk) (sanitizedMessage JSON_stringify message)"
  let ?upd = "\<lambda>d. d\<lparr>d_messages := Some (?old @ [?new]), d_updatedAt := Some (serverTimestamp clk)\<rparr>"
  let ?col' = "setDoc_merge col ?sid ?upd"
  have add: "addMessage (Some col) None None clk JSON_stringify message =
        (Inr (toString (Date_now clk)), Some ?col', [])"
    using session by (simp add: addMessage_def Let_def)
  have before: "fst (getMessages (Some col) None JSON_parse ?sid) =
        Inr (map fst (map (processedMessage JSON_parse) ?old))"
    using session by (simp add: getMessages_def Let_def)
  have "getDoc ?col' ?sid = Some (?upd chatData)"
    using session by (rule getDoc_setDoc_merge)
  then have after: "fst (getMessages (Some ?col') None JSON_parse ?sid) =
        Inr (map fst (map (processedMessage JSON_parse) ?old)
             @ [fst (processedMessage JSON_parse ?new)])"
    by (simp add: getMessages_def Let_def)
  show ?thesis
    using add before after processedMessage_new[OF chart table, of "toString (Date_now clk)" "new_Date clk"]
    by simp
qed

text \<open>The statement on a message with the chart \<^verbatim>\<open>[1]\<close> and the table rows \<^verbatim>\<open>[2,3]\<close>. The two
  JSON functions are given by their values on these payloads.\<close>

theorem addMessage_getMessages_round_trip_witness:
  "getDoc [(''s1'', empty_doc\<lparr>d_userId := Some ''u1'', d_messages := Some []\<rparr>)] ''s1''
     = Some (empty_doc\<lparr>d_userId := Some ''u1'', d_messages := Some []\<rparr>)
   \<and> json_round_trip (the \<circ> map_of [(JArr [JNum 1], ''[1]''), (JArr [JNum 2, JNum 3], ''[2,3]'')])
         (map_of [(''[1]'', JArr [JNum 1]), (''[2,3]'', JArr [JNum 2, JNum 3])]) (JArr [JNum 1])
   \<and> json_round_trip (the \<circ> map_of [(JArr [JNum 1], ''[1]''), (JArr [JNum 2, JNum 3], ''[2,3]'')])
         (map_of [(''[1]'', JArr [JNum 1]), (''[2,3]'', JArr [JNum 2, JNum 3])]) (JArr [JNum 2, JNum 3])
   \<and> fst (getMessages
        (fst (snd (addMessage
           (Some [(''s1'', empty_doc\<lparr>d_userId := Some ''u1'', d_messages := Some []\<rparr>)])
           None None \<lparr>Date_now = 100, new_Date = 101, serverTimestamp = 102\<rparr>
           (the \<circ> map_of [(JArr [JNum 1], ''[1]''), (JArr [JNum 2, JNum 3], ''[2,3]'')])
           \<lparr>cm_id = None, cm_sessionId = ''s1'', cm_userId = ''u1'', cm_type = assistant,
            cm_content = ''chart'', cm_timestamp = 99, cm_chartData = Some (JArr [JNum 1]),
            cm_insights = None, cm_followUpQuestions = None, cm_fileInfo = None,
            cm_tableData = Defined \<lparr>data = JArr [JNum 2, JNum 3], columns = [''a''],
                                     table_filename = ''f.csv''\<rparr>,
            cm_codeExecution = None\<rparr>)))
        None (map_of [(''[1]'', JArr [JNum 1]), (''[2,3]'', JArr [JNum 2, JNum 3])]) ''s1'')
     = Inr [\<lparr>cm_id = Some ''100'', cm_sessionId = ''s1'', cm_userId = ''u1'', cm_type = assistant,
            cm_content = ''chart'', cm_timestamp = 101, cm_chartData = Some (JArr [JNum 1]),
            cm_insights = None, cm_followUpQuestions = None, cm_fileInfo = None,
            cm_tableData = Defined \<lparr>data = JArr [JNum 2, JNum 3], columns = [''a''],
                                     table_filename = ''f.csv''\<rparr>,
            cm_codeExecution = None\<rparr>]"
proof -
  let ?S = "the \<circ> map_of [(JArr [JNum 1], ''[1]''), (JArr [JNum 2, JNum 3], ''[2,3]'')]"
  let ?P = "map_of [(''[1]'', JArr [JNum 1]), (''[2,3]'', JArr [JNum 2, JNum 3])]"
  let ?col = "[(''s1'', empty_doc\<lparr>d_userId := Some ''u1'', d_messages := Some []\<rparr>)]"
  let ?m = "\<lparr>cm_id = None, cm_sessionId = ''s1'', cm_userId = ''u1'', cm_type = assistant,
            cm_content = ''chart'', cm_timestamp = 99, cm_chartData = Some (JArr [JNum 1]),
            cm_insights = None, cm_followUpQuestions = None, cm_fileInfo = None,
            cm_tableData = Defined \<lparr>data = JArr [JNum 2, JNum 3], columns = [''a''],
                                     table_filename = ''f.csv''\<rparr>,
            cm_codeExecution = None\<rparr>"
  have h1: "getDoc ?col (cm_sessionId ?m) = Some (empty_doc\<lparr>d_userId := Some ''u1'', d_messages := Some []\<rparr>)"
    by (simp add: getDoc_def)
  have r1: "json_round_trip ?S ?P (JArr [JNum 1])" by (simp add: json_round_trip_def)
  have r2: "json_round_trip ?S ?P (JArr [JNum 2, JNum 3])" by (simp add: json_round_trip_def)
  have h2: "\<forall>chart. cm_chartData ?m = Some chart \<and> truthy chart \<longrightarrow> json_round_trip ?S ?P chart"
    using r1 by simp
  have h3: "\<forall>table. cm_tableData ?m = Defined table \<longrightarrow> json_round_trip ?S ?P (data table)"
    using r2 by simp
  have before: "fst (getMessages (Some ?col) None ?P ''s1'') = Inr []"
    by (simp add: getMessages_def getDoc_def empty_doc_def)
  from addMessage_getMessages_round_trip[OF h1 h2 h3, of "\<lparr>Date_now = 100, new_Date = 101, serverTimestamp = 102\<rparr>"]
  show ?thesis
    using h1 r1 r2 before by (auto simp: toString.simps digit_char_def)
qed

text \<open>Claim C4 as it is written fails on the chart payload \<^verbatim>\<open>0\<close>, which is a JSON value:
  \<^verbatim>\<open>message.chartData ? ... : null\<close> stores \<^verbatim>\<open>null\<close> for it, and \<^verbatim>\<open>null\<close> is what comes back,
  while the table payload of the same message comes back as it was passed. The two JSON
  functions are given by their values on \<^verbatim>\<open>0\<close> and \<^verbatim>\<open>[]\<close>.\<close>

theorem falsy_chart_round_trip_counterexample:
  "fst (getMessages
      (fst (snd (addMessage
         (Some [(''s1'', empty_doc\<lparr>d_userId := Some ''u1'', d_messages := Some []\<rparr>)])
         None None \<lparr>Date_now = 100, new_Date = 101, serverTimestamp = 102\<rparr>
         (the \<circ> map_of [(JNum 0, ''0''), (JArr [], ''[]'')])
         \<lparr>cm_id = None, cm_sessionId = ''s1'', cm_userId = ''u1'', cm_type = assistant,
          cm_content = ''chart'', cm_timestamp = 99, cm_chartData = Some (JNum 0),
          cm_insights = None, cm_followUpQuestions = None, cm_fileInfo = None,
          cm_tableData = Defined \<lparr>data = JArr [], columns = [], table_filename = ''t.csv''\<rparr>,
          cm_codeExecution = None\<rparr>)))
      None (map_of [(''0'', JNum 0), (''[]'', JArr [])]) ''s1'')
   = Inr [\<lparr>cm_id = Some ''100'', cm_sessionId = ''s1'', cm_userId = ''u1'', cm_type = assistant,
          cm_content = ''chart'', cm_timestamp = 101, cm_chartData = Some JNull,
          cm_insights = None, cm_followUpQuestions = None, cm_fileInfo = None,
          cm_tableData = Defined \<lparr>data = JArr [], columns = [], table_filename = ''t.csv''\<rparr>,
          cm_codeExecution = None\<rparr>]"
  by (simp add: addMessage_def getMessages_def getDoc_def setDoc_merge_def empty_doc_def
      newMessage_def sanitizedMessage_def processedMessage_def parse_chartData_def
      parse_tableData_def toString.simps digit_char_def Let_def)

section \<open>Properties of the file upload orchestrator\<close>

lemma replace_message_append:
  "replace_message new (ms @ [old]) =
     replace_message new ms @ [if mid old = mid new then new else old]"
  by (simp add: replace_message_def)

lemma replace_message_idem:
  "replace_message new (replace_message new ms) = replace_message new ms"
  by (induction ms) (auto simp: replace_message_def)

lemma errorMessage_mid [simp]: "mid (errorMessage calls error) = mid (uploadStartMessage calls)"
  by (simp add: errorMessage_def plain_message_def)

text \<open>
  Claim C9. Let a user be signed in and let the upload fail at either step: the upload to
  object storage throws, or it succeeds and the upload to the backend throws. Then the
  active file is what it was before the upload, so it is still unset when it was unset and
  it is never the file of the failed upload; the message list is the previous list with
  the error message at its end, in the place of the "uploading" message; every message
  that carries the id of the upload is that error message, so there is no success message;
  and the content of the error message is the fixed prefix followed by the message of the
  error (by the text for an unknown error when the thrown value is not an \<^verbatim>\<open>Error\<close>).
\<close>

theorem failed_upload_error_message:
  assumes "ui_user st = Some uid"
    and "uploadFile_storage calls = Inl error
         \<or> (\<exists>fileMetadata. uploadFile_storage calls = Inr fileMetadata
                \<and> uploadFile_backend calls = Inl error)"
  shows "uploadedFile (handleFileUpload calls st) = uploadedFile st
       \<and> ui_messages (handleFileUpload calls st) =
           replace_message (errorMessage calls error) (ui_messages st) @ [errorMessage calls error]
       \<and> (\<forall>msg\<in>set (ui_messages (handleFileUpload calls st)).
             mid msg = mid (uploadStartMessage calls) \<longrightarrow> msg = errorMessage calls error)
       \<and> content (errorMessage calls error) =
           upload_error_prefix @
             (case error_message error of Some text \<Rightarrow> text | None \<Rightarrow> unknown_error_text)"
proof -
  have thrown: "try_upload calls sessionId s = (s, Some error)" for sessionId s
    using assms(2) by (auto simp: try_upload_def)
  have res: "handleFileUpload calls st =
      (let has_session = (case currentSessionId st of None \<Rightarrow> False | Some s \<Rightarrow> s \<noteq> []);
           sessionId =
                 (if has_session then the (currentSessionId st)
                  else (case createChatSession_result calls of
                          Inr created \<Rightarrow> created
                        | Inl error \<Rightarrow> ''temp_'' @ toString (now_session calls)));
           st0 = (if has_session then st else st\<lparr>currentSessionId := Some sessionId\<rparr>)
       in st0\<lparr>ui_messages := replace_message (errorMessage calls error)
                  (ui_messages st0 @ [uploadStartMessage calls])\<rparr>)"
    using assms(1) by (simp add: handleFileUpload_def thrown Let_def)
  have active: "uploadedFile (handleFileUpload calls st) = uploadedFile st"
    by (simp add: res Let_def)
  have msgs: "ui_messages (handleFileUpload calls st) =
           replace_message (errorMessage calls error) (ui_messages st) @ [errorMessage calls error]"
    by (simp add: res Let_def replace_message_append)
  have place: "\<forall>msg\<in>set (ui_messages (handleFileUpload calls st)).
             mid msg = mid (uploadStartMessage calls) \<longrightarrow> msg = errorMessage calls error"
    unfolding msgs by (auto simp: replace_message_def)
  have shown: "content (errorMessage calls error) =
           upload_error_prefix @
             (case error_message error of Some text \<Rightarrow> text | None \<Rightarrow> unknown_error_text)"
    by (simp add: errorMessage_def plain_message_def)
  from active msgs place shown show ?thesis by blast
qed
text \<open>The statement on an upload whose second step fails with \<open>File too large\<close>, in a
  session that has no active file.\<close>

theorem failed_upload_error_message_witness:
  "ui_user \<lparr>ui_messages = [], uploadedFile = None, currentSessionId = Some ''s1'',
            ui_user = Some ''u1''\<rparr> = Some ''u1''
   \<and> uploadFile_backend
        \<lparr>createChatSession_result = Inr ''s1'',
         uploadFile_storage = Inr \<lparr>fm_id = Some ''f1'', fm_fileName = ''data.csv'', fm_fileSize = 10,
                                    fm_fileType = ''text/csv'', fm_fileUrl = ''https://files/f1'',
                                    fm_processed = False\<rparr>,
         uploadFile_backend = Inl (JsError ''File too large''),
         updateFileMetadata_failed = None, addMessage_failed = None,
         updateChatSession_failed = None, now_session = 1, now_message = 2, date_start = 3,
         date_uploaded = 4, date_error = 5, toLocaleString = toString\<rparr> = Inl (JsError ''File too large'')
   \<and> uploadedFile (handleFileUpload
        \<lparr>createChatSession_result = Inr ''s1'',
         uploadFile_storage = Inr \<lparr>fm_id = Some ''f1'', fm_fileName = ''data.csv'', fm_fileSize = 10,
                                    fm_fileType = ''text/csv'', fm_fileUrl = ''https://files/f1'',
                                    fm_processed = False\<rparr>,
         uploadFile_backend = Inl (JsError ''File too large''),
         updateFileMetadata_failed = None, addMessage_failed = None,
         updateChatSession_failed = None, now_session = 1, now_message = 2, date_start = 3,
         date_uploaded = 4, date_error = 5, toLocaleString = toString\<rparr>
        \<lparr>ui_messages = [], uploadedFile = None, currentSessionId = Some ''s1'',
         ui_user = Some ''u1''\<rparr>) = None
   \<and> map content (ui_messages (handleFileUpload
        \<lparr>createChatSession_result = Inr ''s1'',
         uploadFile_storage = Inr \<lparr>fm_id = Some ''f1'', fm_fileName = ''data.csv'', fm_fileSize = 10,
                                    fm_fileType = ''text/csv'', fm_fileUrl = ''https://files/f1'',
                                    fm_processed = False\<rparr>,
         uploadFile_backend = Inl (JsError ''File too large''),
         updateFileMetadata_failed = None, addMessage_failed = None,
         updateChatSession_failed = None, now_session = 1, now_message = 2, date_start = 3,
         date_uploaded = 4, date_error = 5, toLocaleString = toString\<rparr>
        \<lparr>ui_messages = [], uploadedFile = None, currentSessionId = Some ''s1'',
         ui_user = Some ''u1''\<rparr>)) = [upload_error_prefix @ ''File too large'']"
proof -
  let ?st = "\<lparr>ui_messages = [], uploadedFile = None, currentSessionId = Some ''s1'',
            ui_user = Some ''u1''\<rparr>"
  let ?md = "\<lparr>fm_id = Some ''f1'', fm_fileName = ''data.csv'', fm_fileSize = 10,
             fm_fileType = ''text/csv'', fm_fileUrl = ''https://files/f1'', fm_processed = False\<rparr>"
  let ?calls = "\<lparr>createChatSession_result = Inr ''s1'', uploadFile_storage = Inr ?md,
         uploadFile_backend = Inl (JsError ''File too large''),
         updateFileMetadata_failed = None, addMessage_failed = None,
         updateChatSession_failed = None, now_session = 1, now_message = 2, date_start = 3,
         date_uploaded = 4, date_error = 5, toLocaleString = toString\<rparr>"
  have h1: "ui_user ?st = Some ''u1''" by simp
  have h2: "uploadFile_storage ?calls = Inl (JsError ''File too large'')
         \<or> (\<exists>fileMetadata. uploadFile_storage ?calls = Inr fileMetadata
                \<and> uploadFile_backend ?calls = Inl (JsError ''File too large''))"
    by simp
  note r = failed_upload_error_message [OF h1 h2]
  from r [THEN conjunct1] r [THEN conjunct2, THEN conjunct1]
    r [THEN conjunct2, THEN conjunct2, THEN conjunct2]
  show ?thesis by (simp add: replace_message_def)
qed

text \<open>A failed upload also leaves a file that was active before it: the reference is left
  as it was, not cleared.\<close>

lemma failed_upload_keeps_previous_file:
  assumes "ui_user st = Some uid" and "uploadFile_storage calls = Inl error"
    and "uploadedFile st = Some previous"
  shows "uploadedFile (handleFileUpload calls st) = Some previous"
  using assms by (simp add: handleFileUpload_def try_upload_def Let_def)

end
